theory Spec2Isabelle
  imports Complex_Main "HOL-Library.Char_ord" "HOL-Library.List_Lexorder"
begin

section \<open>The relational store\<close>

text \<open>
  The program keeps its state in one SQLite file with five tables, all declared in
  \<^verbatim>\<open>initialize_db\<close> with \<^verbatim>\<open>id INTEGER PRIMARY KEY AUTOINCREMENT\<close>.
  A table is the list of its rows in insertion order, each row the pair of its rowid and
  its other columns, together with the counter SQLite keeps in \<^verbatim>\<open>sqlite_sequence\<close>
  (the largest rowid the table ever held). TEXT columns are strings compared byte by
  byte (the default BINARY collation), REAL columns are idealised as real numbers, and a
  column the program can leave NULL is an option.
\<close>

type_synonym str = string

record 'c table =
  rows :: "(int \<times> 'c) list"
  seq :: int

definition empty_table :: "'c table" where
  "empty_table = \<lparr>rows = [], seq = 0\<rparr>"

definition ids :: "'c table \<Rightarrow> int list" where
  "ids t = map fst (rows t)"

text \<open>AUTOINCREMENT: one more than the largest rowid that ever existed in the table.\<close>

definition next_rowid :: "'c table \<Rightarrow> int" where
  "next_rowid t = fold max (ids t) (seq t) + 1"

text \<open>\<^verbatim>\<open>INSERT INTO t (...) VALUES (...)\<close> with the id left to the engine.\<close>

definition insert_row :: "'c \<Rightarrow> 'c table \<Rightarrow> 'c table" where
  "insert_row c t = \<lparr>rows = rows t @ [(next_rowid t, c)], seq = next_rowid t\<rparr>"

text \<open>\<^verbatim>\<open>UPDATE t SET ... WHERE p\<close> and \<^verbatim>\<open>DELETE FROM t WHERE p\<close>.\<close>

definition update_where :: "(int \<times> 'c \<Rightarrow> bool) \<Rightarrow> ('c \<Rightarrow> 'c) \<Rightarrow> 'c table \<Rightarrow> 'c table" where
  "update_where p f t = t\<lparr>rows := map (\<lambda>r. if p r then (fst r, f (snd r)) else r) (rows t)\<rparr>"

definition delete_where :: "(int \<times> 'c \<Rightarrow> bool) \<Rightarrow> 'c table \<Rightarrow> 'c table" where
  "delete_where p t = t\<lparr>rows := filter (\<lambda>r. \<not> p r) (rows t)\<rparr>"

text \<open>\<^verbatim>\<open>SELECT ... WHERE p\<close>, rows in table order.\<close>

definition select_where :: "(int \<times> 'c \<Rightarrow> bool) \<Rightarrow> 'c table \<Rightarrow> (int \<times> 'c) list" where
  "select_where p t = filter p (rows t)"

record user_cols =
  username :: str
  password :: str
  email :: str
  full_name :: str
  registration_date :: str

record task_cols =
  t_user_id :: int
  t_title :: str
  t_description :: str
  t_due_date :: str
  t_frequency :: str
  t_completed :: int

record reagent_cols =
  r_user_id :: int
  r_name :: str
  r_quantity :: real
  r_unit :: str
  r_location :: str
  r_supplier :: str
  r_catalog_number :: str
  r_date_added :: str
  r_expiry_date :: "str option"
  r_notes :: str

text \<open>
  The experiments table stores \<^verbatim>\<open>json.dumps\<close> of two lists of strings; the model keeps
  the lists and leaves the JSON encoding out.
\<close>

record experiment_cols =
  e_user_id :: int
  e_title :: str
  e_aim :: str
  e_date :: str
  e_reagents :: "str list"
  e_procedure :: "str list"
  e_observations :: str
  e_notes :: str
  e_results :: str

record buffer_cols =
  b_user_id :: int
  b_name :: str
  b_ph :: real
  b_components :: str
  b_preparation :: str

record database =
  users :: "user_cols table"
  tasks :: "task_cols table"
  reagents :: "reagent_cols table"
  experiments :: "experiment_cols table"
  buffers :: "buffer_cols table"

text \<open>The store right after \<^verbatim>\<open>initialize_db\<close> on a fresh file.\<close>

definition init_db :: database where
  "init_db = \<lparr>users = empty_table, tasks = empty_table, reagents = empty_table,
     experiments = empty_table, buffers = empty_table\<rparr>"

text \<open>
  \<^verbatim>\<open>create_connection\<close> returns \<^verbatim>\<open>None\<close>, after showing "Database connection error",
  when \<^verbatim>\<open>sqlite3.connect\<close> raises. Every operation below takes as \<open>conn\<close> what that call
  yields, \<open>None\<close> or the database behind the connection, and returns the database as the
  operation leaves it; with \<open>None\<close> its notices start with that error message. (The
  queries return rows only; the message they cause is not part of their result.) Of
  the errors a statement can raise, the constraint violations of the schema are
  modelled; failures of the file system are not.
\<close>

type_synonym connection = "database option"

text \<open>What the page shows the user (\<^verbatim>\<open>st.success\<close>, \<^verbatim>\<open>st.error\<close>, \<^verbatim>\<open>st.info\<close>).\<close>

datatype notice =
    DatabaseConnectionError
  | ErrorCreatingUser
  | PasswordsDontMatch
  | PasswordTooShort
  | AccountCreated
  | UsernameAlreadyExists
  | TaskAdded
  | NoTasksFound
  | ReagentAdded
  | ErrorAddingReagent
  | InventoryUpdated
  | ErrorUpdatingInventory
  | ReagentUpdated
  | ErrorUpdating
  | ReagentDeleted
  | ErrorDeleting
  | NoReagentsAvailable
  | ProtocolSaved
  | BufferSaved
  | DilutionNeeded real
  | StockConcentrationZero

text \<open>Exceptions that no handler catches: they end the run of the page.\<close>

datatype py_error =
  ValueError | OverflowError | StopIteration | NameError | DuplicateElementKey

section \<open>Credential store\<close>

text \<open>
  \<^verbatim>\<open>hashlib.sha256(password.encode()).hexdigest()\<close> is a library function; the
  operations take it as the parameter \<open>sha256_hex\<close>.

  \<^verbatim>\<open>create_user\<close>: the INSERT fails with an integrity error, caught and turned into
  \<^verbatim>\<open>False\<close>, when the \<^verbatim>\<open>UNIQUE\<close> constraint on \<^verbatim>\<open>username\<close> is violated.
\<close>

definition create_user ::
  "(str \<Rightarrow> str) \<Rightarrow> connection \<Rightarrow> str \<Rightarrow> str \<Rightarrow> str \<Rightarrow> str \<Rightarrow> str
     \<Rightarrow> bool \<times> notice list \<times> connection" where
  "create_user sha256_hex conn uname pw mail fname now =
     (case conn of
        None \<Rightarrow> (False, [DatabaseConnectionError], None)
      | Some db \<Rightarrow>
          (let hashed_password = sha256_hex pw in
           if uname \<in> set (map (username \<circ> snd) (rows (users db)))
           then (False, [ErrorCreatingUser], Some db)
           else (True, [],
                 Some (db\<lparr>users := insert_row
                    \<lparr>username = uname, password = hashed_password, email = mail,
                     full_name = fname, registration_date = now\<rparr> (users db)\<rparr>))))"

text \<open>
  \<^verbatim>\<open>verify_user\<close>: \<^verbatim>\<open>SELECT id, username FROM users WHERE username = ? AND password = ?\<close>
  and \<^verbatim>\<open>fetchone\<close>.
\<close>

definition verify_user ::
  "(str \<Rightarrow> str) \<Rightarrow> connection \<Rightarrow> str \<Rightarrow> str \<Rightarrow> (int \<times> str) option" where
  "verify_user sha256_hex conn uname pw =
     (case conn of
        None \<Rightarrow> None
      | Some db \<Rightarrow>
          (let hashed_password = sha256_hex pw in
           case select_where (\<lambda>r. username (snd r) = uname \<and> password (snd r) = hashed_password)
                  (users db) of
             [] \<Rightarrow> None
           | r # _ \<Rightarrow> Some (fst r, username (snd r))))"

text \<open>The submit branch of the registration form in \<^verbatim>\<open>login_page\<close>.\<close>

record register_form =
  new_username :: str
  new_password :: str
  confirm_password :: str
  reg_email :: str
  reg_full_name :: str

definition register_submit ::
  "(str \<Rightarrow> str) \<Rightarrow> connection \<Rightarrow> str \<Rightarrow> register_form \<Rightarrow> notice list \<times> connection" where
  "register_submit sha256_hex conn now f =
     (if new_password f \<noteq> confirm_password f then ([PasswordsDontMatch], conn)
      else if length (new_password f) < 6 then ([PasswordTooShort], conn)
      else (case create_user sha256_hex conn (new_username f) (new_password f)
                   (reg_email f) (reg_full_name f) now of
              (ok, msgs, conn') \<Rightarrow>
                (if ok then (msgs @ [AccountCreated], conn')
                 else (msgs @ [UsernameAlreadyExists], conn'))))"

text \<open>The UNIQUE constraint of the users table, as a property of a store.\<close>

definition usernames_unique :: "database \<Rightarrow> bool" where
  "usernames_unique db = distinct (map (username \<circ> snd) (rows (users db)))"

section \<open>Calendar dates\<close>

text \<open>
  Due dates are TEXT in the form \<^verbatim>\<open>%Y-%m-%d\<close>. The planner reads them back with
  \<^verbatim>\<open>datetime.strptime\<close>, adds a \<^verbatim>\<open>timedelta\<close> and writes \<^verbatim>\<open>strftime\<close> of the sum.
  These are library functions; they are modelled after the \<^verbatim>\<open>datetime\<close> module's own
  algorithms on proleptic Gregorian ordinals (day 1 is 0001-01-01, the last day
  9999-12-31 is \<^verbatim>\<open>MAXORDINAL\<close>).
\<close>

record date =
  year :: int
  month :: int
  day :: int

definition DAYS_IN_MONTH :: "int list" where
  "DAYS_IN_MONTH = [-1, 31, 28, 31, 30, 31, 30, 31, 31, 30, 31, 30, 31]"

definition DAYS_BEFORE_MONTH :: "int list" where
  "DAYS_BEFORE_MONTH = [-1, 0, 31, 59, 90, 120, 151, 181, 212, 243, 273, 304, 334]"

definition MAXORDINAL :: int where
  "MAXORDINAL = 3652059"

definition is_leap :: "int \<Rightarrow> bool" where
  "is_leap y = (y mod 4 = 0 \<and> (y mod 100 \<noteq> 0 \<or> y mod 400 = 0))"

definition days_before_year :: "int \<Rightarrow> int" where
  "days_before_year y = (y - 1) * 365 + (y - 1) div 4 - (y - 1) div 100 + (y - 1) div 400"

definition days_in_month :: "int \<Rightarrow> int \<Rightarrow> int" where
  "days_in_month y m = (if m = 2 \<and> is_leap y then 29 else DAYS_IN_MONTH ! nat m)"

definition days_before_month :: "int \<Rightarrow> int \<Rightarrow> int" where
  "days_before_month y m = DAYS_BEFORE_MONTH ! nat m + (if m > 2 \<and> is_leap y then 1 else 0)"

definition ymd2ord :: "date \<Rightarrow> int" where
  "ymd2ord d = days_before_year (year d) + days_before_month (year d) (month d) + day d"

text \<open>The dates the \<^verbatim>\<open>date\<close> constructor accepts; anything else is a \<^verbatim>\<open>ValueError\<close>.\<close>

definition valid_date :: "date \<Rightarrow> bool" where
  "valid_date d = (1 \<le> year d \<and> year d \<le> 9999 \<and> 1 \<le> month d \<and> month d \<le> 12
     \<and> 1 \<le> day d \<and> day d \<le> days_in_month (year d) (month d))"

text \<open>
  \<^verbatim>\<open>_ord2ymd\<close>, in two parts. The second part, \<open>month_day\<close>, finds month and day from
  the number of days \<open>r1\<close> that precede the date within its year: an estimate of the
  month that is either exact or one too large, corrected with the table.
\<close>

definition month_day :: "bool \<Rightarrow> int \<Rightarrow> int \<times> int" where
  "month_day leapyear r1 =
     (let m = (r1 + 50) div 32;
          preceding = DAYS_BEFORE_MONTH ! nat m + (if m > 2 \<and> leapyear then 1 else 0)
      in if preceding > r1
         then (m - 1, r1 - (preceding - (DAYS_IN_MONTH ! nat (m - 1)
                        + (if m - 1 = 2 \<and> leapyear then 1 else 0))) + 1)
         else (m, r1 - preceding + 1))"

definition ord2ymd :: "int \<Rightarrow> date" where
  "ord2ymd n =
     (let n400 = (n - 1) div 146097; r400 = (n - 1) mod 146097;
          n100 = r400 div 36524; r100 = r400 mod 36524;
          n4 = r100 div 1461; r4 = r100 mod 1461;
          n1 = r4 div 365; r1 = r4 mod 365;
          y = n400 * 400 + 1 + n100 * 100 + n4 * 4 + n1
      in if n1 = 4 \<or> n100 = 4 then \<lparr>year = y - 1, month = 12, day = 31\<rparr>
         else
           (let leapyear = (n1 = 3 \<and> (n4 \<noteq> 24 \<or> n100 = 3));
                md = month_day leapyear r1
            in \<lparr>year = y, month = fst md, day = snd md\<rparr>))"

text \<open>\<^verbatim>\<open>date + timedelta(days=k)\<close>: an \<^verbatim>\<open>OverflowError\<close> outside the supported range.\<close>

definition add_days :: "date \<Rightarrow> int \<Rightarrow> py_error + date" where
  "add_days d k =
     (let n = ymd2ord d + k in
      if 0 < n \<and> n \<le> MAXORDINAL then Inr (ord2ymd n) else Inl OverflowError)"

definition digit :: "int \<Rightarrow> char" where
  "digit n = ''0123456789'' ! nat n"

definition is_digit :: "char \<Rightarrow> bool" where
  "is_digit c = (48 \<le> (of_char c :: int) \<and> (of_char c :: int) \<le> 57)"

definition digit_val :: "char \<Rightarrow> int" where
  "digit_val c = of_char c - 48"

text \<open>
  \<^verbatim>\<open>strftime("%Y-%m-%d")\<close>: the year as the C library writes \<^verbatim>\<open>%Y\<close>, in decimal
  without padding (so three digits for the year 999), then two digits of month and two
  of day.
\<close>

definition year_text :: "int \<Rightarrow> str" where
  "year_text y =
     (if y < 10 then [digit y]
      else if y < 100 then [digit (y div 10), digit (y mod 10)]
      else if y < 1000 then [digit (y div 100), digit (y div 10 mod 10), digit (y mod 10)]
      else [digit (y div 1000), digit (y div 100 mod 10), digit (y div 10 mod 10),
            digit (y mod 10)])"

definition strftime_ymd :: "date \<Rightarrow> str" where
  "strftime_ymd d =
     year_text (year d)
     @ [CHR ''-'', digit (month d div 10), digit (month d mod 10), CHR ''-'',
        digit (day d div 10), digit (day d mod 10)]"

text \<open>
  \<^verbatim>\<open>strptime(s, "%Y-%m-%d")\<close> matches the regular expression
  \<^verbatim>\<open>(\d\d\d\d)-(1[0-2]|0[1-9]|[1-9])-(3[01]|[12]\d|0[1-9]|[1-9]| [1-9])\<close> against the
  whole string and then builds the date. Each of the two functions below reads one
  field: the first alternative that matches, and the rest of the input.
\<close>

fun parse_month :: "str \<Rightarrow> (int \<times> str) option" where
  "parse_month (a # b # s) =
     (if a = CHR ''1'' \<and> b \<in> {CHR ''0'', CHR ''1'', CHR ''2''} then Some (10 + digit_val b, s)
      else if a = CHR ''0'' \<and> is_digit b \<and> b \<noteq> CHR ''0'' then Some (digit_val b, s)
      else if is_digit a \<and> a \<noteq> CHR ''0'' then Some (digit_val a, b # s)
      else None)"
| "parse_month [a] = (if is_digit a \<and> a \<noteq> CHR ''0'' then Some (digit_val a, []) else None)"
| "parse_month [] = None"

fun parse_day :: "str \<Rightarrow> (int \<times> str) option" where
  "parse_day (a # b # s) =
     (if a = CHR ''3'' \<and> b \<in> {CHR ''0'', CHR ''1''} then Some (30 + digit_val b, s)
      else if a \<in> {CHR ''1'', CHR ''2''} \<and> is_digit b then Some (10 * digit_val a + digit_val b, s)
      else if a = CHR ''0'' \<and> is_digit b \<and> b \<noteq> CHR ''0'' then Some (digit_val b, s)
      else if is_digit a \<and> a \<noteq> CHR ''0'' then Some (digit_val a, b # s)
      else if a = CHR '' '' \<and> is_digit b \<and> b \<noteq> CHR ''0'' then Some (digit_val b, s)
      else None)"
| "parse_day [a] = (if is_digit a \<and> a \<noteq> CHR ''0'' then Some (digit_val a, []) else None)"
| "parse_day [] = None"

definition strptime_ymd :: "str \<Rightarrow> py_error + date" where
  "strptime_ymd s =
     (case s of
        y1 # y2 # y3 # y4 # dash # s1 \<Rightarrow>
          (if is_digit y1 \<and> is_digit y2 \<and> is_digit y3 \<and> is_digit y4 \<and> dash = CHR ''-''
           then (case parse_month s1 of
                   Some (m, dash2 # s2) \<Rightarrow>
                     (if dash2 = CHR ''-''
                      then (case parse_day s2 of
                              Some (d, []) \<Rightarrow>
                                (let dt = \<lparr>year = 1000 * digit_val y1 + 100 * digit_val y2
                                            + 10 * digit_val y3 + digit_val y4,
                                          month = m, day = d\<rparr>
                                 in if valid_date dt then Inr dt else Inl ValueError)
                            | _ \<Rightarrow> Inl ValueError)
                      else Inl ValueError)
                 | _ \<Rightarrow> Inl ValueError)
           else Inl ValueError)
      | _ \<Rightarrow> Inl ValueError)"

text \<open>\<^verbatim>\<open>(strptime(s, "%Y-%m-%d") + timedelta(days=k)).strftime("%Y-%m-%d")\<close>.\<close>

definition shift_date :: "str \<Rightarrow> int \<Rightarrow> py_error + str" where
  "shift_date s k =
     (case strptime_ymd s of
        Inl e \<Rightarrow> Inl e
      | Inr d \<Rightarrow> (case add_days d k of Inl e \<Rightarrow> Inl e | Inr d' \<Rightarrow> Inr (strftime_ymd d')))"

section \<open>Lab planner\<close>

text \<open>
  The three forms of the planner (new task, new recurring task, task for the selected
  date) run the same INSERT once the title is not empty; \<^verbatim>\<open>completed\<close> takes its
  default 0. The due date comes from a date widget and is stored as its \<^verbatim>\<open>strftime\<close>.
\<close>

definition add_task ::
  "connection \<Rightarrow> int \<Rightarrow> str \<Rightarrow> str \<Rightarrow> date \<Rightarrow> str \<Rightarrow> notice list \<times> connection" where
  "add_task conn user_id title description due frequency =
     (if title = [] then ([], conn)
      else (case conn of
              None \<Rightarrow> ([DatabaseConnectionError], None)
            | Some db \<Rightarrow>
                ([TaskAdded],
                 Some (db\<lparr>tasks := insert_row
                    \<lparr>t_user_id = user_id, t_title = title, t_description = description,
                     t_due_date = strftime_ymd due, t_frequency = frequency,
                     t_completed = 0\<rparr> (tasks db)\<rparr>))))"

text \<open>
  \<^verbatim>\<open>get_tasks(frequency=None, completed=False)\<close>: the WHERE clause always starts with
  \<^verbatim>\<open>user_id = ?\<close>; a frequency that is neither \<^verbatim>\<open>None\<close> nor empty adds
  \<^verbatim>\<open>AND frequency = ?\<close>; \<^verbatim>\<open>completed = False\<close> adds \<^verbatim>\<open>AND completed = 0\<close>; the rows come
  ordered by due date (rows with equal keys in table order, which SQLite does not
  promise and no property below relies on). \<open>get_tasks_rows\<close> is the result before the
  projection on the selected columns.
\<close>

type_synonym task_tuple = "int \<times> str \<times> str \<times> str \<times> str \<times> int"

definition task_tuple :: "int \<times> task_cols \<Rightarrow> task_tuple" where
  "task_tuple r = (fst r, t_title (snd r), t_description (snd r), t_due_date (snd r),
     t_frequency (snd r), t_completed (snd r))"

definition get_tasks_rows ::
  "database \<Rightarrow> int \<Rightarrow> str option \<Rightarrow> bool \<Rightarrow> (int \<times> task_cols) list" where
  "get_tasks_rows db user_id frequency completed =
     sort_key (t_due_date \<circ> snd)
       (select_where
          (\<lambda>r. t_user_id (snd r) = user_id
             \<and> (case frequency of None \<Rightarrow> True | Some f \<Rightarrow> f = [] \<or> t_frequency (snd r) = f)
             \<and> (completed \<or> t_completed (snd r) = 0))
          (tasks db))"

definition get_tasks :: "connection \<Rightarrow> int \<Rightarrow> str option \<Rightarrow> bool \<Rightarrow> task_tuple list" where
  "get_tasks conn user_id frequency completed =
     (case conn of
        None \<Rightarrow> []
      | Some db \<Rightarrow> map task_tuple (get_tasks_rows db user_id frequency completed))"

text \<open>
  The body of the tick button of the first tab:
  \<^verbatim>\<open>UPDATE tasks SET completed = 1 WHERE id = ?\<close>.
\<close>

definition complete_task :: "connection \<Rightarrow> int \<Rightarrow> notice list \<times> connection" where
  "complete_task conn task_id =
     (case conn of
        None \<Rightarrow> ([DatabaseConnectionError], None)
      | Some db \<Rightarrow>
          ([], Some (db\<lparr>tasks := update_where (\<lambda>r. fst r = task_id)
                       (\<lambda>c. c\<lparr>t_completed := 1\<rparr>) (tasks db)\<rparr>)))"

text \<open>
  The body of the tick button of the second tab, for a task as \<^verbatim>\<open>get_tasks\<close> returned it:
  the new date is computed first (a date that does not parse, or a sum past the last
  supported day, raises and nothing is caught), then
  \<^verbatim>\<open>UPDATE tasks SET due_date = ? WHERE id = ?\<close>.
\<close>

definition advance_task :: "connection \<Rightarrow> task_tuple \<Rightarrow> py_error + notice list \<times> connection" where
  "advance_task conn task =
     (case task of (task_id, title, desc, due_date, freq, completed) \<Rightarrow>
        (case (if freq = ''weekly'' then shift_date due_date 7 else shift_date due_date 30) of
           Inl e \<Rightarrow> Inl e
         | Inr new_date \<Rightarrow>
             (case conn of
                None \<Rightarrow> Inr ([DatabaseConnectionError], None)
              | Some db \<Rightarrow>
                  Inr ([], Some (db\<lparr>tasks := update_where (\<lambda>r. fst r = task_id)
                                 (\<lambda>c. c\<lparr>t_due_date := new_date\<rparr>) (tasks db)\<rparr>)))))"

text \<open>
  The first tab lists \<^verbatim>\<open>get_tasks()\<close>, every task of the user that is not completed,
  whatever its frequency, and draws one tick button per task after formatting its due
  date. \<open>clicked\<close> is the id of the task whose button the user pressed.
\<close>

fun daily_tasks_loop ::
  "connection \<Rightarrow> task_tuple list \<Rightarrow> int \<Rightarrow> py_error + notice list \<times> connection" where
  "daily_tasks_loop conn [] clicked = Inr ([], conn)"
| "daily_tasks_loop conn ((task_id, title, desc, due_date, freq, completed) # rest) clicked =
     (case strptime_ymd due_date of
        Inl e \<Rightarrow> Inl e
      | Inr _ \<Rightarrow>
          (if task_id = clicked then Inr (complete_task conn task_id)
           else daily_tasks_loop conn rest clicked))"

definition daily_tasks_tab :: "connection \<Rightarrow> int \<Rightarrow> int \<Rightarrow> py_error + notice list \<times> connection" where
  "daily_tasks_tab conn user_id clicked =
     (let tasks = get_tasks conn user_id None False in
      if tasks = [] then Inr ([NoTasksFound], conn)
      else daily_tasks_loop conn tasks clicked)"

text \<open>
  The second tab lists \<^verbatim>\<open>get_tasks(frequency)\<close> for the frequency chosen on the radio
  button, weekly or monthly, and draws its tick buttons with the same keys
  \<^verbatim>\<open>complete_<id>\<close> as the first tab. Both tabs are drawn in one run of the page, and
  \<^verbatim>\<open>st.button\<close> raises when its key has been used before in the run. \<open>keys\<close> holds
  the ids whose key is taken.
\<close>

fun recurring_tasks_loop ::
  "connection \<Rightarrow> int list \<Rightarrow> task_tuple list \<Rightarrow> int
     \<Rightarrow> py_error + notice list \<times> connection" where
  "recurring_tasks_loop conn keys [] clicked = Inr ([], conn)"
| "recurring_tasks_loop conn keys ((task_id, title, desc, due_date, freq, completed) # rest)
     clicked =
     (case strptime_ymd due_date of
        Inl e \<Rightarrow> Inl e
      | Inr _ \<Rightarrow>
          (if task_id \<in> set keys then Inl DuplicateElementKey
           else if task_id = clicked
           then advance_task conn (task_id, title, desc, due_date, freq, completed)
           else recurring_tasks_loop conn (task_id # keys) rest clicked))"

text \<open>
  The second tab is reached when the first tab has drawn all its buttons: the keys
  taken are those of the tasks the first tab lists.
\<close>

definition recurring_tasks_tab ::
  "connection \<Rightarrow> int \<Rightarrow> str \<Rightarrow> int \<Rightarrow> py_error + notice list \<times> connection" where
  "recurring_tasks_tab conn user_id frequency clicked =
     (let keys = map fst (get_tasks conn user_id None False);
          recurring_tasks = get_tasks conn user_id (Some frequency) False
      in if recurring_tasks = [] then Inr ([NoTasksFound], conn)
         else recurring_tasks_loop conn keys recurring_tasks clicked)"

text \<open>
  One run of \<^verbatim>\<open>lab_planner\<close> after a click on the tick button with key
  \<^verbatim>\<open>complete_<clicked>\<close>, with the radio button of the second tab at \<open>frequency\<close>. When
  the first tab has drawn that button it handles the click and \<^verbatim>\<open>st.rerun()\<close> ends
  the run; otherwise the run goes on to the second tab. (The third tab only reads, see
  \<open>calendar_tasks\<close>; the forms that add tasks are \<open>add_task\<close>.)
\<close>

definition lab_planner ::
  "connection \<Rightarrow> int \<Rightarrow> str \<Rightarrow> int \<Rightarrow> py_error + notice list \<times> connection" where
  "lab_planner conn user_id frequency clicked =
     (case daily_tasks_tab conn user_id clicked of
        Inl e \<Rightarrow> Inl e
      | Inr (msgs, conn') \<Rightarrow>
          (if clicked \<in> set (map fst (get_tasks conn user_id None False))
           then Inr (msgs, conn')
           else (case recurring_tasks_tab conn user_id frequency clicked of
                   Inl e \<Rightarrow> Inl e
                 | Inr (msgs', conn'') \<Rightarrow> Inr (msgs @ msgs', conn''))))"

text \<open>
  The calendar tab:
  \<^verbatim>\<open>SELECT title, description FROM tasks WHERE user_id = ? AND due_date = ? AND completed = 0\<close>.
\<close>

definition calendar_rows :: "database \<Rightarrow> int \<Rightarrow> str \<Rightarrow> (int \<times> task_cols) list" where
  "calendar_rows db user_id date_str =
     select_where (\<lambda>r. t_user_id (snd r) = user_id \<and> t_due_date (snd r) = date_str
                      \<and> t_completed (snd r) = 0) (tasks db)"

definition calendar_tasks :: "connection \<Rightarrow> int \<Rightarrow> str \<Rightarrow> (str \<times> str) list" where
  "calendar_tasks conn user_id date_str =
     (case conn of
        None \<Rightarrow> []
      | Some db \<Rightarrow> map (\<lambda>r. (t_title (snd r), t_description (snd r)))
                     (calendar_rows db user_id date_str))"

section \<open>Reagent tracker\<close>

text \<open>
  \<^verbatim>\<open>st.number_input(..., min_value=m)\<close> hands the page a number that is not below \<open>m\<close>;
  without \<^verbatim>\<open>min_value\<close> it hands over any number. The forms below carry the number
  handed over. \<open>None\<close> marks form data that the widget cannot have produced, a number
  below \<open>m\<close>; for such data the handlers do nothing.
\<close>

definition number_input :: "real option \<Rightarrow> real \<Rightarrow> real option" where
  "number_input min_value v =
     (case min_value of None \<Rightarrow> Some v | Some m \<Rightarrow> if v < m then None else Some v)"

text \<open>The fields the three reagent forms send; the expiry date is already formatted.\<close>

record reagent_form =
  f_name :: str
  f_quantity :: real
  f_unit :: str
  f_location :: str
  f_supplier :: str
  f_catalog_num :: str
  f_expiry :: "str option"
  f_notes :: str

definition units :: "str list" where
  "units = [''g'', ''mg'', CHR 0xB5 # ''g'', ''L'', ''mL'', CHR 0xB5 # ''L'']"

text \<open>
  \<^verbatim>\<open>get_reagents\<close>:
  \<^verbatim>\<open>SELECT id, name, ... FROM reagents WHERE user_id = ? ORDER BY name\<close>; any failure
  gives the empty list.
\<close>

definition get_reagents :: "connection \<Rightarrow> int \<Rightarrow> (int \<times> reagent_cols) list" where
  "get_reagents conn user_id =
     (case conn of
        None \<Rightarrow> []
      | Some db \<Rightarrow> sort_key (r_name \<circ> snd)
                     (select_where (\<lambda>r. r_user_id (snd r) = user_id) (reagents db)))"

text \<open>
  The second tab: the form is processed when the name is not empty; the quantity widget
  has \<^verbatim>\<open>min_value=0.0\<close>.
\<close>

definition add_reagent ::
  "connection \<Rightarrow> int \<Rightarrow> str \<Rightarrow> reagent_form \<Rightarrow> notice list \<times> connection" where
  "add_reagent conn user_id today f =
     (case number_input (Some 0) (f_quantity f) of
        None \<Rightarrow> ([], conn)
      | Some quantity \<Rightarrow>
          (if f_name f = [] then ([], conn)
           else (case conn of
                   None \<Rightarrow> ([DatabaseConnectionError, ErrorAddingReagent], None)
                 | Some db \<Rightarrow>
                     ([ReagentAdded],
                      Some (db\<lparr>reagents := insert_row
                         \<lparr>r_user_id = user_id, r_name = f_name f, r_quantity = quantity,
                          r_unit = f_unit f, r_location = f_location f,
                          r_supplier = f_supplier f, r_catalog_number = f_catalog_num f,
                          r_date_added = today, r_expiry_date = f_expiry f,
                          r_notes = f_notes f\<rparr> (reagents db)\<rparr>)))))"

text \<open>What the UPDATE statements of the tracker assign: every column but the owner and the date added.\<close>

definition set_reagent_fields :: "reagent_form \<Rightarrow> real \<Rightarrow> reagent_cols \<Rightarrow> reagent_cols" where
  "set_reagent_fields f quantity c =
     c\<lparr>r_name := f_name f, r_quantity := quantity, r_unit := f_unit f,
       r_location := f_location f, r_supplier := f_supplier f,
       r_catalog_number := f_catalog_num f, r_expiry_date := f_expiry f,
       r_notes := f_notes f\<rparr>"

text \<open>
  The first tab, once the edited table differs from the stored one: for every row of
  the edited table
  \<^verbatim>\<open>UPDATE reagents SET ... WHERE id=? AND user_id=?\<close>, then one commit. The quantity
  column of the editor has \<^verbatim>\<open>min_value=0\<close>; an edit the editor does not deliver leaves
  the page without a change to process.
\<close>

definition inline_edit ::
  "connection \<Rightarrow> int \<Rightarrow> (int \<times> reagent_form) list \<Rightarrow> notice list \<times> connection" where
  "inline_edit conn user_id edited =
     (if list_ex (\<lambda>e. number_input (Some 0) (f_quantity (snd e)) = None) edited then ([], conn)
      else (case conn of
              None \<Rightarrow> ([DatabaseConnectionError, ErrorUpdatingInventory], None)
            | Some db \<Rightarrow>
                ([InventoryUpdated],
                 Some (db\<lparr>reagents :=
                    fold (\<lambda>e. update_where
                                 (\<lambda>r. fst r = fst e \<and> r_user_id (snd r) = user_id)
                                 (set_reagent_fields (snd e) (f_quantity (snd e))))
                         edited (reagents db)\<rparr>))))"

text \<open>
  The third tab, Update button: the quantity widget has no \<^verbatim>\<open>min_value\<close>, and the
  statement is \<^verbatim>\<open>UPDATE reagents SET ... WHERE id=?\<close>.
\<close>

definition update_reagent ::
  "connection \<Rightarrow> int \<Rightarrow> reagent_form \<Rightarrow> notice list \<times> connection" where
  "update_reagent conn reagent_id f =
     (case number_input None (f_quantity f) of
        None \<Rightarrow> ([], conn)
      | Some quantity \<Rightarrow>
          (case conn of
             None \<Rightarrow> ([DatabaseConnectionError, ErrorUpdating], None)
           | Some db \<Rightarrow>
               ([ReagentUpdated],
                Some (db\<lparr>reagents := update_where (\<lambda>r. fst r = reagent_id)
                             (set_reagent_fields f quantity) (reagents db)\<rparr>))))"

text \<open>The third tab, Delete button: \<^verbatim>\<open>DELETE FROM reagents WHERE id=?\<close>.\<close>

definition delete_reagent :: "connection \<Rightarrow> int \<Rightarrow> notice list \<times> connection" where
  "delete_reagent conn reagent_id =
     (case conn of
        None \<Rightarrow> ([DatabaseConnectionError, ErrorDeleting], None)
      | Some db \<Rightarrow>
          ([ReagentDeleted],
           Some (db\<lparr>reagents := delete_where (\<lambda>r. fst r = reagent_id) (reagents db)\<rparr>)))"

text \<open>
  The third tab as a whole. The page lists the user's reagents in a select box, reads
  \<open>reagent_id\<close> back from the text of the selected entry, and looks the reagent up in
  the same list with \<^verbatim>\<open>next(...)\<close>, which raises \<^verbatim>\<open>StopIteration\<close> when no listed
  reagent has that id; the unit is looked up in the list of units, which raises
  \<^verbatim>\<open>ValueError\<close> when it is not there. How the id is read from the entry's text is not
  modelled: \<open>reagent_id\<close> is the number that reading yields. Nor is the reading of the
  stored expiry date with \<^verbatim>\<open>pd.to_datetime\<close>, which fills the date widget of the form.
\<close>

datatype update_click = NoClick | UpdateClick reagent_form | DeleteClick

definition update_inventory_tab ::
  "connection \<Rightarrow> int \<Rightarrow> int \<Rightarrow> update_click \<Rightarrow> py_error + notice list \<times> connection" where
  "update_inventory_tab conn user_id reagent_id click =
     (let listed = get_reagents conn user_id in
      if listed = [] then Inr ([NoReagentsAvailable], conn)
      else (case filter (\<lambda>r. fst r = reagent_id) listed of
              [] \<Rightarrow> Inl StopIteration
            | reagent_data # _ \<Rightarrow>
                (if r_unit (snd reagent_data) \<notin> set units then Inl ValueError
                 else (case click of
                         NoClick \<Rightarrow> Inr ([], conn)
                       | UpdateClick f \<Rightarrow> Inr (update_reagent conn reagent_id f)
                       | DeleteClick \<Rightarrow> Inr (delete_reagent conn reagent_id)))))"

section \<open>Protocols, buffers, dashboard, dilution\<close>

text \<open>
  \<^verbatim>\<open>protocol_generator\<close> saves the experiment when title and aim are not empty;
  \<^verbatim>\<open>buffer_helper\<close> saves a Tris recipe or a custom buffer with the same INSERT.
\<close>

definition save_protocol ::
  "connection \<Rightarrow> int \<Rightarrow> experiment_cols \<Rightarrow> notice list \<times> connection" where
  "save_protocol conn user_id e =
     (if e_title e = [] \<or> e_aim e = [] then ([], conn)
      else (case conn of
              None \<Rightarrow> ([DatabaseConnectionError], None)
            | Some db \<Rightarrow>
                ([ProtocolSaved],
                 Some (db\<lparr>experiments := insert_row (e\<lparr>e_user_id := user_id\<rparr>)
                                         (experiments db)\<rparr>))))"

definition save_buffer ::
  "connection \<Rightarrow> int \<Rightarrow> buffer_cols \<Rightarrow> notice list \<times> connection" where
  "save_buffer conn user_id b =
     (case conn of
        None \<Rightarrow> ([DatabaseConnectionError], None)
      | Some db \<Rightarrow>
          ([BufferSaved],
           Some (db\<lparr>buffers := insert_row (b\<lparr>b_user_id := user_id\<rparr>) (buffers db)\<rparr>)))"

text \<open>
  The three queries of \<^verbatim>\<open>dashboard_page\<close>, before the projection on the selected
  columns:
  \<^verbatim>\<open>... FROM tasks WHERE user_id = ? AND completed = 0 AND (due_date >= ? OR frequency != 'once') ORDER BY due_date LIMIT 5\<close>,
  \<^verbatim>\<open>... FROM experiments WHERE user_id = ? ORDER BY date DESC LIMIT 3\<close>,
  \<^verbatim>\<open>... FROM reagents WHERE user_id = ? AND quantity < 10 ORDER BY quantity ASC LIMIT 3\<close>.
  Rows with equal keys come in table order, in the descending query too (the sort is
  stable, and the double reversal keeps equal dates in table order).
\<close>

definition upcoming_tasks :: "database \<Rightarrow> int \<Rightarrow> str \<Rightarrow> (int \<times> task_cols) list" where
  "upcoming_tasks db user_id today =
     take 5 (sort_key (t_due_date \<circ> snd)
       (select_where (\<lambda>r. t_user_id (snd r) = user_id \<and> t_completed (snd r) = 0
                         \<and> (t_due_date (snd r) \<ge> today \<or> t_frequency (snd r) \<noteq> ''once''))
          (tasks db)))"

definition recent_experiments :: "database \<Rightarrow> int \<Rightarrow> (int \<times> experiment_cols) list" where
  "recent_experiments db user_id =
     take 3 (rev (sort_key (e_date \<circ> snd)
       (rev (select_where (\<lambda>r. e_user_id (snd r) = user_id) (experiments db)))))"

definition low_reagents :: "database \<Rightarrow> int \<Rightarrow> (int \<times> reagent_cols) list" where
  "low_reagents db user_id =
     take 3 (sort_key (r_quantity \<circ> snd)
       (select_where (\<lambda>r. r_user_id (snd r) = user_id \<and> r_quantity (snd r) < 10)
          (reagents db)))"

text \<open>
  When the connection fails the three result variables are never assigned and the
  layout code that reads them raises \<^verbatim>\<open>NameError\<close>.
\<close>

definition dashboard_page ::
  "connection \<Rightarrow> int \<Rightarrow> str
     \<Rightarrow> py_error + (str \<times> str \<times> str) list \<times> (str \<times> str) list \<times> (str \<times> real \<times> str) list" where
  "dashboard_page conn user_id today =
     (case conn of
        None \<Rightarrow> Inl NameError
      | Some db \<Rightarrow>
          Inr (map (\<lambda>r. (t_title (snd r), t_description (snd r), t_due_date (snd r)))
                 (upcoming_tasks db user_id today),
               map (\<lambda>r. (e_title (snd r), e_date (snd r))) (recent_experiments db user_id),
               map (\<lambda>r. (r_name (snd r), r_quantity (snd r), r_unit (snd r)))
                 (low_reagents db user_id)))"

text \<open>
  The Calculate button of \<^verbatim>\<open>dilution_calculator\<close>: \<^verbatim>\<open>v1 = (c2 * v2) / c1\<close> inside a
  \<^verbatim>\<open>try\<close> whose \<^verbatim>\<open>except ZeroDivisionError\<close> shows an error. Python raises that
  exception exactly when the divisor is zero; the floats are idealised as real numbers.
  On success the result is shown and a line is added to the history kept in the session.
\<close>

definition dilution :: "real \<Rightarrow> real \<Rightarrow> real \<Rightarrow> unit + real" where
  "dilution c1 c2 v2 = (if c1 = 0 then Inl () else Inr ((c2 * v2) / c1))"

definition dilution_calculator ::
  "real \<Rightarrow> real \<Rightarrow> real \<Rightarrow> (real \<times> real \<times> real \<times> real) list
     \<Rightarrow> notice list \<times> (real \<times> real \<times> real \<times> real) list" where
  "dilution_calculator c1 c2 v2 dilution_history =
     (case dilution c1 c2 v2 of
        Inl _ \<Rightarrow> ([StockConcentrationZero], dilution_history)
      | Inr v1 \<Rightarrow> ([DilutionNeeded v1], dilution_history @ [(c1, c2, v2, v1)]))"

section \<open>Interleaved creations by several users\<close>

text \<open>
  A creation is one of the forms that insert a row, submitted in the session of the
  user whose id it carries. \<open>run\<close> applies a sequence of creations, by any users in any
  order, to a store.
\<close>

datatype action =
    AddTask int str str date str
  | AddReagent int str reagent_form
  | SaveProtocol int experiment_cols
  | SaveBuffer int buffer_cols

fun actor :: "action \<Rightarrow> int" where
  "actor (AddTask user_id title description due frequency) = user_id"
| "actor (AddReagent user_id today f) = user_id"
| "actor (SaveProtocol user_id e) = user_id"
| "actor (SaveBuffer user_id b) = user_id"

definition after :: "database \<Rightarrow> notice list \<times> connection \<Rightarrow> database" where
  "after db res = (case snd res of None \<Rightarrow> db | Some db' \<Rightarrow> db')"

fun step :: "action \<Rightarrow> database \<Rightarrow> database" where
  "step (AddTask user_id title description due frequency) db =
     after db (add_task (Some db) user_id title description due frequency)"
| "step (AddReagent user_id today f) db = after db (add_reagent (Some db) user_id today f)"
| "step (SaveProtocol user_id e) db = after db (save_protocol (Some db) user_id e)"
| "step (SaveBuffer user_id b) db = after db (save_buffer (Some db) user_id b)"

fun run :: "action list \<Rightarrow> database \<Rightarrow> database" where
  "run [] db = db"
| "run (a # as) db = run as (step a db)"

text \<open>
  The ids of the rows that the creations of user \<open>u\<close> add to one table in the course of
  a run: at each creation of \<open>u\<close>, the ids the table holds afterwards and did not hold
  before.
\<close>

fun created_in :: "(database \<Rightarrow> 'c table) \<Rightarrow> int \<Rightarrow> action list \<Rightarrow> database \<Rightarrow> int list" where
  "created_in tbl u [] db = []"
| "created_in tbl u (a # as) db =
     (if actor a = u then filter (\<lambda>i. i \<notin> set (ids (tbl db))) (ids (tbl (step a db))) else [])
     @ created_in tbl u as (step a db)"

text \<open>The rowids of a table never exceed its sequence counter.\<close>

definition table_ok :: "'c table \<Rightarrow> bool" where
  "table_ok t = list_all (\<lambda>i. i \<le> seq t) (ids t)"

text \<open>The rows user \<open>u\<close> created in the course of a run, as pairs of table and rowid.\<close>

datatype table_name = Tasks | Reagents | Experiments | Buffers

definition created_by :: "int \<Rightarrow> action list \<Rightarrow> database \<Rightarrow> (table_name \<times> int) list" where
  "created_by u acts db =
     map (Pair Tasks) (created_in tasks u acts db)
     @ map (Pair Reagents) (created_in reagents u acts db)
     @ map (Pair Experiments) (created_in experiments u acts db)
     @ map (Pair Buffers) (created_in buffers u acts db)"

section \<open>Sessions\<close>

text \<open>
  What a logged-in user can submit on the pages that write to the store: the four
  creations, an edit of the inventory table, a click in the third tab of the reagent
  tracker with \<open>reagent_id\<close> read from the selected entry, and a click on a tick button
  of the planner. The ids in an edit or a click are arbitrary numbers. A run that ends
  in an uncaught exception has committed nothing: in every page the statements that
  write come after the last point that can raise.
\<close>

datatype click =
    NewTask str str date str
  | NewReagent str reagent_form
  | NewProtocol experiment_cols
  | NewBuffer buffer_cols
  | EditInline "(int \<times> reagent_form) list"
  | Inventory int update_click
  | Tick str int

definition settled :: "database \<Rightarrow> py_error + notice list \<times> connection \<Rightarrow> database" where
  "settled db res = (case res of Inl e \<Rightarrow> db | Inr r \<Rightarrow> after db r)"

fun perform :: "int \<Rightarrow> click \<Rightarrow> database \<Rightarrow> database" where
  "perform user_id (NewTask title description due frequency) db =
     step (AddTask user_id title description due frequency) db"
| "perform user_id (NewReagent today f) db = step (AddReagent user_id today f) db"
| "perform user_id (NewProtocol e) db = step (SaveProtocol user_id e) db"
| "perform user_id (NewBuffer b) db = step (SaveBuffer user_id b) db"
| "perform user_id (EditInline edited) db = after db (inline_edit (Some db) user_id edited)"
| "perform user_id (Inventory reagent_id c) db =
     settled db (update_inventory_tab (Some db) user_id reagent_id c)"
| "perform user_id (Tick frequency clicked) db =
     settled db (lab_planner (Some db) user_id frequency clicked)"

fun session :: "int \<Rightarrow> click list \<Rightarrow> database \<Rightarrow> database" where
  "session user_id [] db = db"
| "session user_id (c # cs) db = session user_id cs (perform user_id c db)"

text \<open>
  The \<^verbatim>\<open>PRIMARY KEY\<close> constraint on the two tables the program updates and deletes
  from: no two rows share an id.
\<close>

definition store_ok :: "database \<Rightarrow> bool" where
  "store_ok db = (distinct (ids (tasks db)) \<and> distinct (ids (reagents db)))"

text \<open>
  The rows that are not user \<open>u\<close>'s: all rows of the users table and, in the other four
  tables, the rows whose \<^verbatim>\<open>user_id\<close> is not \<open>u\<close>, each list in table order.
\<close>

definition foreign_rows ::
  "int \<Rightarrow> database
     \<Rightarrow> (int \<times> user_cols) list \<times> (int \<times> task_cols) list \<times> (int \<times> reagent_cols) list
        \<times> (int \<times> experiment_cols) list \<times> (int \<times> buffer_cols) list" where
  "foreign_rows u db =
     (rows (users db),
      filter (\<lambda>r. t_user_id (snd r) \<noteq> u) (rows (tasks db)),
      filter (\<lambda>r. r_user_id (snd r) \<noteq> u) (rows (reagents db)),
      filter (\<lambda>r. e_user_id (snd r) \<noteq> u) (rows (experiments db)),
      filter (\<lambda>r. b_user_id (snd r) \<noteq> u) (rows (buffers db)))"

section \<open>Example stores\<close>

text \<open>A store with one registered user, whose password digest is taken with \<open>rev\<close>.\<close>

definition ada_db :: database where
  "ada_db = init_db\<lparr>users := \<lparr>rows = [(1, \<lparr>username = ''ada'', password = ''1terces'',
     email = [], full_name = [], registration_date = ''2024-01-01 09:00:00''\<rparr>)], seq = 1\<rparr>\<rparr>"

text \<open>
  A store with two users: ada (id 1) owns two tasks and the reagent NaCl, bob (id 2)
  owns one task and the reagent Tris.
\<close>

definition lab_db :: database where
  "lab_db = \<lparr>
     users = \<lparr>rows =
        [(1, \<lparr>username = ''ada'', password = ''1terces'', email = [], full_name = [],
               registration_date = ''2024-01-01 09:00:00''\<rparr>),
         (2, \<lparr>username = ''bob'', password = ''2terces'', email = [], full_name = [],
               registration_date = ''2024-01-01 09:30:00''\<rparr>)], seq = 2\<rparr>,
     tasks = \<lparr>rows =
        [(1, \<lparr>t_user_id = 1, t_title = ''Calibrate balance'', t_description = [],
               t_due_date = ''2024-01-01'', t_frequency = ''weekly'', t_completed = 0\<rparr>),
         (2, \<lparr>t_user_id = 1, t_title = ''Order tips'', t_description = [],
               t_due_date = ''2024-01-01'', t_frequency = ''once'', t_completed = 0\<rparr>),
         (3, \<lparr>t_user_id = 2, t_title = ''Autoclave'', t_description = [],
               t_due_date = ''2024-01-15'', t_frequency = ''monthly'', t_completed = 0\<rparr>)],
        seq = 3\<rparr>,
     reagents = \<lparr>rows =
        [(1, \<lparr>r_user_id = 1, r_name = ''NaCl'', r_quantity = 500, r_unit = ''g'',
               r_location = ''Shelf A'', r_supplier = [], r_catalog_number = [],
               r_date_added = ''2024-01-01'', r_expiry_date = None, r_notes = []\<rparr>),
         (2, \<lparr>r_user_id = 2, r_name = ''Tris'', r_quantity = 5, r_unit = ''g'',
               r_location = ''Shelf B'', r_supplier = [], r_catalog_number = [],
               r_date_added = ''2024-01-02'', r_expiry_date = None, r_notes = []\<rparr>)],
        seq = 2\<rparr>,
     experiments = empty_table,
     buffers = empty_table\<rparr>"

text \<open>A form that renames a reagent and sets its quantity to \<open>q\<close>.\<close>

definition spoiled :: "real \<Rightarrow> reagent_form" where
  "spoiled q = \<lparr>f_name = ''spoiled'', f_quantity = q, f_unit = ''g'', f_location = [],
     f_supplier = [], f_catalog_num = [], f_expiry = None, f_notes = []\<rparr>"

text \<open>The store after user 1 added one monthly task to an empty planner.\<close>

definition monthly_db :: database where
  "monthly_db = init_db\<lparr>tasks := \<lparr>rows =
     [(1, \<lparr>t_user_id = 1, t_title = ''Clean centrifuge'', t_description = [],
           t_due_date = ''2024-01-01'', t_frequency = ''monthly'', t_completed = 0\<rparr>)],
     seq = 1\<rparr>\<rparr>"

text \<open>Creations of users 1 and 2, interleaved.\<close>

definition two_users :: "action list" where
  "two_users =
     [AddTask 1 ''Calibrate balance'' [] \<lparr>year = 2024, month = 1, day = 8\<rparr> ''weekly'',
      AddTask 2 ''Autoclave'' [] \<lparr>year = 2024, month = 1, day = 2\<rparr> ''once'',
      AddReagent 2 ''2024-01-02'' (spoiled 5),
      AddTask 1 ''Order tips'' [] \<lparr>year = 2024, month = 1, day = 3\<rparr> ''once'',
      AddReagent 1 ''2024-01-03'' (spoiled 20)]"

text \<open>
  Clicks of user 1 on the example store that name rows of user 2 (reagent 2, task 3),
  followed by the deletion of the own reagent 1.
\<close>

definition prying :: "click list" where
  "prying =
     [Inventory 2 (UpdateClick (spoiled 1)), Inventory 2 DeleteClick,
      EditInline [(2, spoiled 1)], Tick ''monthly'' 3, Tick ''weekly'' 3,
      Inventory 1 DeleteClick]"


section \<open>Properties\<close>

subsection \<open>Credential store\<close>

lemma create_user_keeps_unique:
  assumes "usernames_unique db"
    and "create_user h (Some db) u p e f now = (ok, msgs, Some db')"
  shows "usernames_unique db'"
  using assms
  by (auto simp: create_user_def usernames_unique_def insert_row_def Let_def split: if_splits)

lemma init_db_usernames_unique: "usernames_unique init_db"
  by (simp add: usernames_unique_def init_db_def empty_table_def)

lemma select_where_append:
  "select_where p (t\<lparr>rows := xs @ ys\<rparr>) = filter p xs @ filter p ys"
  by (simp add: select_where_def)

lemma no_match_filter_empty:
  assumes "u \<notin> set (map (username \<circ> snd) xs)"
  shows "filter (\<lambda>r. username (snd r) = u \<and> q r) xs = []"
  using assms by (induction xs) auto

text \<open>
  C3. Whenever \<^verbatim>\<open>create_user\<close> succeeds for a username and a password,
  \<^verbatim>\<open>verify_user\<close> on the resulting store with the same username and password returns
  the identity just stored (the new row's id and the username), and with any password
  whose digest differs from the stored one it returns nothing.
\<close>

theorem register_then_authenticate:
  assumes "create_user h (Some db) u p e f now = (True, msgs, conn')"
  shows "verify_user h conn' u p = Some (next_rowid (users db), u)
       \<and> (\<forall>p'. h p' \<noteq> h p \<longrightarrow> verify_user h conn' u p' = None)"
proof -
  from assms have fresh: "u \<notin> set (map (username \<circ> snd) (rows (users db)))"
    by (auto simp: create_user_def Let_def split: if_splits)
  from assms fresh have conn': "conn' = Some (db\<lparr>users := insert_row
      \<lparr>username = u, password = h p, email = e, full_name = f, registration_date = now\<rparr>
      (users db)\<rparr>)"
    by (simp add: create_user_def Let_def)
  have none: "filter (\<lambda>r. username (snd r) = u \<and> password (snd r) = x) (rows (users db)) = []" for x
    using fresh by (rule no_match_filter_empty)
  have "verify_user h conn' u p = Some (next_rowid (users db), u)"
    by (simp add: conn' verify_user_def select_where_def insert_row_def none)
  moreover have "\<forall>p'. h p' \<noteq> h p \<longrightarrow> verify_user h conn' u p' = None"
    by (auto simp: conn' verify_user_def select_where_def insert_row_def none)
  ultimately show ?thesis by blast
qed

theorem register_then_authenticate_witness:
  "create_user rev (Some init_db) ''ada'' ''secret1'' [] [] ''2024-01-01 09:00:00''
     = (True, [], Some (init_db\<lparr>users := \<lparr>rows = [(1, \<lparr>username = ''ada'', password = ''1terces'',
          email = [], full_name = [], registration_date = ''2024-01-01 09:00:00''\<rparr>)], seq = 1\<rparr>\<rparr>))
   \<and> verify_user rev (Some (init_db\<lparr>users := \<lparr>rows = [(1, \<lparr>username = ''ada'',
          password = ''1terces'', email = [], full_name = [],
          registration_date = ''2024-01-01 09:00:00''\<rparr>)], seq = 1\<rparr>\<rparr>)) ''ada'' ''secret1''
     = Some (1, ''ada'')
   \<and> verify_user rev (Some (init_db\<lparr>users := \<lparr>rows = [(1, \<lparr>username = ''ada'',
          password = ''1terces'', email = [], full_name = [],
          registration_date = ''2024-01-01 09:00:00''\<rparr>)], seq = 1\<rparr>\<rparr>)) ''ada'' ''secret2''
     = None"
proof -
  have c: "create_user rev (Some init_db) ''ada'' ''secret1'' [] [] ''2024-01-01 09:00:00''
     = (True, [], Some (init_db\<lparr>users := \<lparr>rows = [(1, \<lparr>username = ''ada'', password = ''1terces'',
          email = [], full_name = [], registration_date = ''2024-01-01 09:00:00''\<rparr>)], seq = 1\<rparr>\<rparr>))"
    by (simp add: create_user_def init_db_def empty_table_def insert_row_def next_rowid_def
        ids_def)
  have n: "next_rowid (users init_db) = 1"
    by (simp add: init_db_def empty_table_def next_rowid_def ids_def)
  have d: "rev ''secret2'' \<noteq> rev ''secret1''" by simp
  from register_then_authenticate [OF c] c n d
  show ?thesis by simp
qed

text \<open>
  C4. On a store whose usernames are unique (the \<^verbatim>\<open>UNIQUE\<close> constraint of the schema,
  kept by \<^verbatim>\<open>create_user\<close>), registering a username that is byte for byte the one of an
  existing row fails: \<^verbatim>\<open>create_user\<close> returns \<^verbatim>\<open>False\<close> after the error notice, the
  registration form answers "Username already exists", the store is left as it was, and
  the users table holds exactly one row with that username.
\<close>

theorem duplicate_username_rejected:
  assumes "usernames_unique db"
    and "uname \<in> set (map (username \<circ> snd) (rows (users db)))"
  shows "create_user h (Some db) uname pw e f now = (False, [ErrorCreatingUser], Some db)
       \<and> (new_username form = uname \<and> new_password form = confirm_password form
              \<and> 6 \<le> length (new_password form)
            \<longrightarrow> register_submit h (Some db) now form
                  = ([ErrorCreatingUser, UsernameAlreadyExists], Some db))
       \<and> length (filter (\<lambda>r. username (snd r) = uname) (rows (users db))) = 1"
proof -
  have c: "create_user h (Some db) uname pw e f now = (False, [ErrorCreatingUser], Some db)"
    for pw e f
    using assms(2) by (simp add: create_user_def)
  have r: "register_submit h (Some db) now form
          = ([ErrorCreatingUser, UsernameAlreadyExists], Some db)"
    if "new_username form = uname" "new_password form = confirm_password form"
       "6 \<le> length (new_password form)"
    using that c by (simp add: register_submit_def)
  have "distinct (map (username \<circ> snd) (rows (users db)))"
    using assms(1) by (simp add: usernames_unique_def)
  moreover have "length (filter (\<lambda>r. username (snd r) = uname) xs) = 1"
    if "distinct (map (username \<circ> snd) xs)" "uname \<in> set (map (username \<circ> snd) xs)"
    for xs :: "(int \<times> user_cols) list"
    using that
  proof (induction xs)
    case Nil
    then show ?case by simp
  next
    case (Cons x xs)
    show ?case
    proof (cases "username (snd x) = uname")
      case True
      with Cons.prems have "uname \<notin> set (map (username \<circ> snd) xs)" by auto
      then have "filter (\<lambda>r. username (snd r) = uname \<and> True) xs = []"
        by (rule no_match_filter_empty)
      with True show ?thesis by simp
    next
      case False
      with Cons show ?thesis by auto
    qed
  qed
  ultimately have "length (filter (\<lambda>r. username (snd r) = uname) (rows (users db))) = 1"
    using assms(2) by blast
  with c r show ?thesis by blast
qed



theorem duplicate_username_rejected_witness:
  "usernames_unique ada_db
   \<and> ''ada'' \<in> set (map (username \<circ> snd) (rows (users ada_db)))
   \<and> create_user rev (Some ada_db) ''ada'' ''another'' [] [] ''2024-02-02 10:00:00''
       = (False, [ErrorCreatingUser], Some ada_db)
   \<and> register_submit rev (Some ada_db) ''2024-02-02 10:00:00''
        \<lparr>new_username = ''ada'', new_password = ''another'', confirm_password = ''another'',
         reg_email = [], reg_full_name = []\<rparr>
       = ([ErrorCreatingUser, UsernameAlreadyExists], Some ada_db)
   \<and> length (filter (\<lambda>r. username (snd r) = ''ada'') (rows (users ada_db))) = 1"
proof -
  have u: "usernames_unique ada_db"
    by (simp add: usernames_unique_def ada_db_def)
  have m: "''ada'' \<in> set (map (username \<circ> snd) (rows (users ada_db)))"
    by (simp add: ada_db_def)
  from duplicate_username_rejected [OF u m, of rev "''another''" "[]" "[]"
      "''2024-02-02 10:00:00''"
      "\<lparr>new_username = ''ada'', new_password = ''another'', confirm_password = ''another'',
         reg_email = [], reg_full_name = []\<rparr>"] u m
  show ?thesis by simp
qed


text \<open>
  C10. A registration whose password differs from its confirmation, or is shorter than
  six characters, is answered with the matching error whatever the connection is, and
  the connection is handed back untouched: the outcome does not depend on the store and
  the store is not changed. Conversely a submission that changes the users table has
  equal password and confirmation of at least six characters.
\<close>

theorem registration_validated_first:
  "(new_password f \<noteq> confirm_password f
      \<longrightarrow> (\<forall>conn. register_submit h conn now f = ([PasswordsDontMatch], conn)))
   \<and> (new_password f = confirm_password f \<and> length (new_password f) < 6
      \<longrightarrow> (\<forall>conn. register_submit h conn now f = ([PasswordTooShort], conn)))
   \<and> (\<forall>db msgs db'. register_submit h (Some db) now f = (msgs, Some db') \<and> users db' \<noteq> users db
      \<longrightarrow> new_password f = confirm_password f \<and> 6 \<le> length (new_password f))"
proof -
  have 1: "\<forall>conn. register_submit h conn now f = ([PasswordsDontMatch], conn)"
    if "new_password f \<noteq> confirm_password f"
    using that by (simp add: register_submit_def)
  have 2: "\<forall>conn. register_submit h conn now f = ([PasswordTooShort], conn)"
    if "new_password f = confirm_password f \<and> length (new_password f) < 6"
    using that by (auto simp: register_submit_def)
  have 3: "new_password f = confirm_password f \<and> 6 \<le> length (new_password f)"
    if "register_submit h (Some db) now f = (msgs, Some db') \<and> users db' \<noteq> users db"
    for db msgs db'
  proof (rule ccontr)
    assume "\<not> ?thesis"
    then have "new_password f \<noteq> confirm_password f
        \<or> (new_password f = confirm_password f \<and> length (new_password f) < 6)"
      by auto
    with 1 2 have "register_submit h (Some db) now f = ([PasswordsDontMatch], Some db)
        \<or> register_submit h (Some db) now f = ([PasswordTooShort], Some db)"
      by blast
    with that show False by auto
  qed
  from 1 2 3 show ?thesis by blast
qed


theorem registration_validated_first_witness:
  "register_submit rev None ''2024-02-02 10:00:00''
      \<lparr>new_username = ''bob'', new_password = ''secret1'', confirm_password = ''secret2'',
       reg_email = [], reg_full_name = []\<rparr> = ([PasswordsDontMatch], None)
   \<and> register_submit rev (Some ada_db) ''2024-02-02 10:00:00''
      \<lparr>new_username = ''bob'', new_password = ''abc'', confirm_password = ''abc'',
       reg_email = [], reg_full_name = []\<rparr> = ([PasswordTooShort], Some ada_db)
   \<and> (\<exists>msgs db'. register_submit rev (Some ada_db) ''2024-02-02 10:00:00''
      \<lparr>new_username = ''bob'', new_password = ''secret1'', confirm_password = ''secret1'',
       reg_email = [], reg_full_name = []\<rparr> = (msgs, Some db') \<and> users db' \<noteq> users ada_db)"
proof -
  have a: "''secret1'' \<noteq> ''secret2''" by simp
  have b: "length ''abc'' < 6" by simp
  have c: "\<exists>msgs db'. register_submit rev (Some ada_db) ''2024-02-02 10:00:00''
      \<lparr>new_username = ''bob'', new_password = ''secret1'', confirm_password = ''secret1'',
       reg_email = [], reg_full_name = []\<rparr> = (msgs, Some db') \<and> users db' \<noteq> users ada_db"
    by (simp add: register_submit_def create_user_def ada_db_def insert_row_def)
  from a registration_validated_first [of "\<lparr>new_username = ''bob'', new_password = ''secret1'',
       confirm_password = ''secret2'', reg_email = [], reg_full_name = []\<rparr>" rev
       "''2024-02-02 10:00:00''", THEN conjunct1]
  have d: "register_submit rev None ''2024-02-02 10:00:00''
      \<lparr>new_username = ''bob'', new_password = ''secret1'', confirm_password = ''secret2'',
       reg_email = [], reg_full_name = []\<rparr> = ([PasswordsDontMatch], None)"
    by simp
  from b registration_validated_first [of "\<lparr>new_username = ''bob'', new_password = ''abc'',
       confirm_password = ''abc'', reg_email = [], reg_full_name = []\<rparr>" rev
       "''2024-02-02 10:00:00''", THEN conjunct2, THEN conjunct1]
  have e: "register_submit rev (Some ada_db) ''2024-02-02 10:00:00''
      \<lparr>new_username = ''bob'', new_password = ''abc'', confirm_password = ''abc'',
       reg_email = [], reg_full_name = []\<rparr> = ([PasswordTooShort], Some ada_db)"
    by simp
  from c d e show ?thesis by blast
qed

subsection \<open>Unfolding the model on concrete stores\<close>

lemmas lab_defs = lab_db_def spoiled_def empty_table_def init_db_def
lemmas reagent_defs = update_inventory_tab_def get_reagents_def select_where_def
  update_reagent_def delete_reagent_def inline_edit_def number_input_def update_where_def
  delete_where_def set_reagent_fields_def units_def add_reagent_def
lemmas task_defs = lab_planner_def daily_tasks_tab_def recurring_tasks_tab_def get_tasks_def get_tasks_rows_def
  select_where_def task_tuple_def complete_task_def advance_task_def update_where_def
  add_task_def insert_row_def next_rowid_def ids_def
lemmas date_defs = strptime_ymd_def is_digit_def digit_val_def valid_date_def
  days_in_month_def DAYS_IN_MONTH_def is_leap_def shift_date_def add_days_def ymd2ord_def
  ord2ymd_def month_day_def days_before_year_def days_before_month_def DAYS_BEFORE_MONTH_def MAXORDINAL_def
  strftime_ymd_def year_text_def digit_def

subsection \<open>Rowids and ownership along a run of creations\<close>

text \<open>
  The lemmas on runs are stated for any table \<open>tbl\<close> of the store with owner column
  \<open>owner\<close> such that a creation does to it nothing, or one INSERT of a row owned by the
  user who submitted the form. The three tables that are read back have this property
  (\<open>step_tasks\<close>, \<open>step_reagents\<close>, \<open>step_experiments\<close>).
\<close>


lemma fold_max_le:
  "list_all (\<lambda>i. i \<le> (s::int)) xs \<Longrightarrow> fold max xs s = s"
  by (induction xs) (auto simp: max_def)

lemma next_rowid_ok: "table_ok t \<Longrightarrow> next_rowid t = seq t + 1"
  by (simp add: table_ok_def next_rowid_def fold_max_le)

lemma insert_row_ok:
  assumes "table_ok t"
  shows "table_ok (insert_row c t)" and "seq (insert_row c t) = seq t + 1"
    and "rows (insert_row c t) = rows t @ [(seq t + 1, c)]"
  using assms next_rowid_ok [OF assms]
  by (auto simp: insert_row_def table_ok_def ids_def list_all_iff)

lemma created_in_fresh:
  assumes g: "\<And>a db. tbl (step a db) = tbl db
            \<or> (\<exists>c. owner c = actor a \<and> tbl (step a db) = insert_row c (tbl db))"
  shows "table_ok (tbl db) \<Longrightarrow>
         table_ok (tbl (run acts db)) \<and> seq (tbl db) \<le> seq (tbl (run acts db))
         \<and> (\<forall>u. \<forall>i \<in> set (created_in tbl u acts db). seq (tbl db) < i)"
proof (induction acts arbitrary: db)
  case Nil
  then show ?case by simp
next
  case (Cons a as)
  from g [of a db] show ?case
  proof
    assume same: "tbl (step a db) = tbl db"
    with Cons.prems have "table_ok (tbl (step a db))" by simp
    from Cons.IH [OF this] same show ?thesis by auto
  next
    assume "\<exists>c. owner c = actor a \<and> tbl (step a db) = insert_row c (tbl db)"
    then obtain c where c: "tbl (step a db) = insert_row c (tbl db)" by blast
    note ins = insert_row_ok [OF Cons.prems, of c]
    from ins(1) c have ok: "table_ok (tbl (step a db))" by simp
    from Cons.IH [OF ok] c ins(2)
    have 1: "table_ok (tbl (run as (step a db)))"
      and 2: "seq (tbl db) \<le> seq (tbl (run as (step a db)))"
      and 3: "\<forall>u. \<forall>i \<in> set (created_in tbl u as (step a db)). seq (tbl db) < i"
      by force+
    have 4: "seq (tbl db) < i"
      if "i \<in> set (ids (tbl (step a db)))" "i \<notin> set (ids (tbl db))" for i
      using that c ins(3) by (auto simp: ids_def)
    from 1 2 3 4 show ?thesis by auto
  qed
qed

lemma created_in_owner:
  assumes g: "\<And>a db. tbl (step a db) = tbl db
            \<or> (\<exists>c. owner c = actor a \<and> tbl (step a db) = insert_row c (tbl db))"
  shows "table_ok (tbl db) \<Longrightarrow> r \<in> set (rows (tbl (run acts db))) \<Longrightarrow>
         r \<in> set (rows (tbl db)) \<or> fst r \<in> set (created_in tbl (owner (snd r)) acts db)"
proof (induction acts arbitrary: db)
  case Nil
  then show ?case by simp
next
  case (Cons a as)
  from g [of a db] show ?case
  proof
    assume same: "tbl (step a db) = tbl db"
    with Cons.prems have "table_ok (tbl (step a db))" "r \<in> set (rows (tbl (run as (step a db))))"
      by simp_all
    from Cons.IH [OF this] same show ?thesis by auto
  next
    assume "\<exists>c. owner c = actor a \<and> tbl (step a db) = insert_row c (tbl db)"
    then obtain c where o: "owner c = actor a" and c: "tbl (step a db) = insert_row c (tbl db)"
      by blast
    note ins = insert_row_ok [OF Cons.prems(1), of c]
    from ins(1) c have ok: "table_ok (tbl (step a db))" by simp
    from Cons.prems have "r \<in> set (rows (tbl (run as (step a db))))" by simp
    from Cons.IH [OF ok this]
    have "r \<in> set (rows (tbl (step a db)))
        \<or> fst r \<in> set (created_in tbl (owner (snd r)) as (step a db))" .
    then show ?thesis
    proof
      assume "r \<in> set (rows (tbl (step a db)))"
      with c ins(3) have "r \<in> set (rows (tbl db)) \<or> r = (seq (tbl db) + 1, c)" by auto
      then show ?thesis
      proof
        assume "r = (seq (tbl db) + 1, c)"
        moreover from Cons.prems(1) have "seq (tbl db) + 1 \<notin> set (ids (tbl db))"
          by (auto simp: table_ok_def list_all_iff)
        ultimately show ?thesis using o c ins(3) by (auto simp: ids_def)
      qed simp
    qed simp
  qed
qed

lemma created_in_one_user:
  assumes g: "\<And>a db. tbl (step a db) = tbl db
            \<or> (\<exists>c. owner c = actor a \<and> tbl (step a db) = insert_row c (tbl db))"
  shows "table_ok (tbl db) \<Longrightarrow> i \<in> set (created_in tbl u acts db) \<Longrightarrow>
         i \<in> set (created_in tbl v acts db) \<Longrightarrow> u = v"
proof (induction acts arbitrary: db)
  case Nil
  then show ?case by simp
next
  case (Cons a as)
  from g [of a db] show ?case
  proof
    assume same: "tbl (step a db) = tbl db"
    with Cons.prems have "table_ok (tbl (step a db))"
      "i \<in> set (created_in tbl u as (step a db))" "i \<in> set (created_in tbl v as (step a db))"
      by (auto split: if_splits)
    from Cons.IH [OF this] show ?thesis .
  next
    assume "\<exists>c. owner c = actor a \<and> tbl (step a db) = insert_row c (tbl db)"
    then obtain c where c: "tbl (step a db) = insert_row c (tbl db)" by blast
    note ins = insert_row_ok [OF Cons.prems(1), of c]
    from ins(1) c have ok: "table_ok (tbl (step a db))" by simp
    from created_in_fresh [OF g ok, of as] c ins(2)
    have later: "\<forall>w. \<forall>j \<in> set (created_in tbl w as (step a db)). seq (tbl db) + 1 < j"
      by simp
    have now: "j \<in> set (ids (tbl (step a db))) \<Longrightarrow> j \<notin> set (ids (tbl db)) \<Longrightarrow> j = seq (tbl db) + 1"
      for j using c ins(3) by (auto simp: ids_def)
    show ?thesis
    proof (cases "i = seq (tbl db) + 1")
      case True
      with later have "i \<notin> set (created_in tbl u as (step a db))"
        "i \<notin> set (created_in tbl v as (step a db))" by auto
      with Cons.prems(2,3) show ?thesis by (auto split: if_splits)
    next
      case False
      with now Cons.prems(2,3) have "i \<in> set (created_in tbl u as (step a db))"
        "i \<in> set (created_in tbl v as (step a db))" by (auto split: if_splits)
      from Cons.IH [OF ok this] show ?thesis .
    qed
  qed
qed

lemma step_tasks:
  "tasks (step a db) = tasks db
     \<or> (\<exists>c. t_user_id c = actor a \<and> tasks (step a db) = insert_row c (tasks db))"
  by (cases a) (force simp: after_def add_task_def add_reagent_def save_protocol_def
      save_buffer_def number_input_def)+

lemma step_reagents:
  "reagents (step a db) = reagents db
     \<or> (\<exists>c. r_user_id c = actor a \<and> reagents (step a db) = insert_row c (reagents db))"
  by (cases a) (force simp: after_def add_task_def add_reagent_def save_protocol_def
      save_buffer_def number_input_def)+

lemma step_experiments:
  "experiments (step a db) = experiments db
     \<or> (\<exists>c. e_user_id c = actor a \<and> experiments (step a db) = insert_row c (experiments db))"
  by (cases a) (force simp: after_def add_task_def add_reagent_def save_protocol_def
      save_buffer_def number_input_def)+

lemma not_created_by_other:
  assumes g: "\<And>a db. tbl (step a db) = tbl db
            \<or> (\<exists>c. owner c = actor a \<and> tbl (step a db) = insert_row c (tbl db))"
    and e: "tbl init_db = empty_table"
    and r: "r \<in> set (rows (tbl (run acts init_db)))"
    and o: "owner (snd r) = A" and ne: "A \<noteq> B"
  shows "fst r \<notin> set (created_in tbl B acts init_db)"
proof
  assume b: "fst r \<in> set (created_in tbl B acts init_db)"
  from e have ok: "table_ok (tbl init_db)" by (simp add: table_ok_def empty_table_def ids_def)
  from created_in_owner [OF g ok r] e o
  have "fst r \<in> set (created_in tbl A acts init_db)" by (simp add: empty_table_def)
  from created_in_one_user [OF g ok this b] ne show False by simp
qed

lemma created_by_iff:
  "(Tasks, i) \<in> set (created_by u acts db) \<longleftrightarrow> i \<in> set (created_in tasks u acts db)"
  "(Reagents, i) \<in> set (created_by u acts db) \<longleftrightarrow> i \<in> set (created_in reagents u acts db)"
  "(Experiments, i) \<in> set (created_by u acts db) \<longleftrightarrow> i \<in> set (created_in experiments u acts db)"
  by (auto simp: created_by_def)

lemma get_tasks_rows_sub:
  "r \<in> set (get_tasks_rows db A f c) \<Longrightarrow> r \<in> set (rows (tasks db)) \<and> t_user_id (snd r) = A"
  by (simp add: get_tasks_rows_def select_where_def)

lemma get_reagents_sub:
  "r \<in> set (get_reagents (Some db) A) \<Longrightarrow> r \<in> set (rows (reagents db)) \<and> r_user_id (snd r) = A"
  by (simp add: get_reagents_def select_where_def)

lemma upcoming_tasks_sub:
  "r \<in> set (upcoming_tasks db A today) \<Longrightarrow> r \<in> set (rows (tasks db)) \<and> t_user_id (snd r) = A"
  by (auto simp: upcoming_tasks_def select_where_def dest!: in_set_takeD)

lemma recent_experiments_sub:
  "r \<in> set (recent_experiments db A) \<Longrightarrow> r \<in> set (rows (experiments db)) \<and> e_user_id (snd r) = A"
  by (auto simp: recent_experiments_def select_where_def dest!: in_set_takeD)

lemma low_reagents_sub:
  "r \<in> set (low_reagents db A) \<Longrightarrow> r \<in> set (rows (reagents db)) \<and> r_user_id (snd r) = A"
  by (auto simp: low_reagents_def select_where_def dest!: in_set_takeD)

lemma calendar_rows_sub:
  "r \<in> set (calendar_rows db A d) \<Longrightarrow> r \<in> set (rows (tasks db)) \<and> t_user_id (snd r) = A"
  by (simp add: calendar_rows_def select_where_def)

lemma init_tables:
  "tasks init_db = empty_table" "reagents init_db = empty_table"
  "experiments init_db = empty_table"
  by (simp_all add: init_db_def)


text \<open>
  C2. Let users A and B be different and let the store be the result of any sequence of
  creations (tasks, reagents, experiments, buffers) submitted by any users in any order,
  starting from the empty store. Then every tuple that \<^verbatim>\<open>get_tasks\<close> returns to A, for
  any frequency filter and either value of the completed flag, is the projection of a
  task row whose \<^verbatim>\<open>user_id\<close> is A and whose id is not the id of a row B created; and the
  same holds for the rows behind \<^verbatim>\<open>get_reagents\<close>, behind the three dashboard queries
  (upcoming tasks, recent experiments, low reagents) and behind the calendar query. (The
  program has no query that reads the buffers table.)
\<close>

theorem reads_confined_to_owner:
  assumes "A \<noteq> B" and "db = run acts init_db"
  shows "(\<forall>t \<in> set (get_tasks (Some db) A f c). \<exists>r \<in> set (rows (tasks db)).
            t = task_tuple r \<and> t_user_id (snd r) = A
            \<and> (Tasks, fst r) \<notin> set (created_by B acts init_db))
       \<and> (\<forall>r \<in> set (get_reagents (Some db) A).
            r \<in> set (rows (reagents db)) \<and> r_user_id (snd r) = A
            \<and> (Reagents, fst r) \<notin> set (created_by B acts init_db))
       \<and> (\<forall>r \<in> set (upcoming_tasks db A today).
            r \<in> set (rows (tasks db)) \<and> t_user_id (snd r) = A
            \<and> (Tasks, fst r) \<notin> set (created_by B acts init_db))
       \<and> (\<forall>r \<in> set (recent_experiments db A).
            r \<in> set (rows (experiments db)) \<and> e_user_id (snd r) = A
            \<and> (Experiments, fst r) \<notin> set (created_by B acts init_db))
       \<and> (\<forall>r \<in> set (low_reagents db A).
            r \<in> set (rows (reagents db)) \<and> r_user_id (snd r) = A
            \<and> (Reagents, fst r) \<notin> set (created_by B acts init_db))
       \<and> (\<forall>r \<in> set (calendar_rows db A date_str).
            r \<in> set (rows (tasks db)) \<and> t_user_id (snd r) = A
            \<and> (Tasks, fst r) \<notin> set (created_by B acts init_db))"
proof -
  have T: "(Tasks, fst r) \<notin> set (created_by B acts init_db)"
    if "r \<in> set (rows (tasks db))" "t_user_id (snd r) = A" for r
    using not_created_by_other [OF step_tasks init_tables(1) _ that(2) assms(1), of acts]
      that(1) assms(2) by (simp add: created_by_iff)
  have R: "(Reagents, fst r) \<notin> set (created_by B acts init_db)"
    if "r \<in> set (rows (reagents db))" "r_user_id (snd r) = A" for r
    using not_created_by_other [OF step_reagents init_tables(2) _ that(2) assms(1), of acts]
      that(1) assms(2) by (simp add: created_by_iff)
  have E: "(Experiments, fst r) \<notin> set (created_by B acts init_db)"
    if "r \<in> set (rows (experiments db))" "e_user_id (snd r) = A" for r
    using not_created_by_other [OF step_experiments init_tables(3) _ that(2) assms(1), of acts]
      that(1) assms(2) by (simp add: created_by_iff)
  have 1: "\<forall>t \<in> set (get_tasks (Some db) A f c). \<exists>r \<in> set (rows (tasks db)).
            t = task_tuple r \<and> t_user_id (snd r) = A
            \<and> (Tasks, fst r) \<notin> set (created_by B acts init_db)"
  proof
    fix t assume "t \<in> set (get_tasks (Some db) A f c)"
    then obtain r where "r \<in> set (get_tasks_rows db A f c)" "t = task_tuple r"
      by (auto simp: get_tasks_def)
    with get_tasks_rows_sub [of r db A f c] T [of r] show "\<exists>r \<in> set (rows (tasks db)).
            t = task_tuple r \<and> t_user_id (snd r) = A
            \<and> (Tasks, fst r) \<notin> set (created_by B acts init_db)" by blast
  qed
  have 2: "\<forall>r \<in> set (get_reagents (Some db) A).
            r \<in> set (rows (reagents db)) \<and> r_user_id (snd r) = A
            \<and> (Reagents, fst r) \<notin> set (created_by B acts init_db)"
    using get_reagents_sub R by blast
  have 3: "\<forall>r \<in> set (upcoming_tasks db A today).
            r \<in> set (rows (tasks db)) \<and> t_user_id (snd r) = A
            \<and> (Tasks, fst r) \<notin> set (created_by B acts init_db)"
    using upcoming_tasks_sub T by blast
  have 4: "\<forall>r \<in> set (recent_experiments db A).
            r \<in> set (rows (experiments db)) \<and> e_user_id (snd r) = A
            \<and> (Experiments, fst r) \<notin> set (created_by B acts init_db)"
    using recent_experiments_sub E by blast
  have 5: "\<forall>r \<in> set (low_reagents db A).
            r \<in> set (rows (reagents db)) \<and> r_user_id (snd r) = A
            \<and> (Reagents, fst r) \<notin> set (created_by B acts init_db)"
    using low_reagents_sub R by blast
  have 6: "\<forall>r \<in> set (calendar_rows db A date_str).
            r \<in> set (rows (tasks db)) \<and> t_user_id (snd r) = A
            \<and> (Tasks, fst r) \<notin> set (created_by B acts init_db)"
    using calendar_rows_sub T by blast
  from 1 2 3 4 5 6 show ?thesis by (intro conjI)
qed

lemma run_two_users:
  "run two_users init_db = init_db\<lparr>
     tasks := \<lparr>rows =
         [(1, \<lparr>t_user_id = 1, t_title = ''Calibrate balance'', t_description = [],
               t_due_date = ''2024-01-08'', t_frequency = ''weekly'', t_completed = 0\<rparr>),
          (2, \<lparr>t_user_id = 2, t_title = ''Autoclave'', t_description = [],
               t_due_date = ''2024-01-02'', t_frequency = ''once'', t_completed = 0\<rparr>),
          (3, \<lparr>t_user_id = 1, t_title = ''Order tips'', t_description = [],
               t_due_date = ''2024-01-03'', t_frequency = ''once'', t_completed = 0\<rparr>)],
         seq = 3\<rparr>,
     reagents := \<lparr>rows =
         [(1, \<lparr>r_user_id = 2, r_name = ''spoiled'', r_quantity = 5, r_unit = ''g'',
               r_location = [], r_supplier = [], r_catalog_number = [],
               r_date_added = ''2024-01-02'', r_expiry_date = None, r_notes = []\<rparr>),
          (2, \<lparr>r_user_id = 1, r_name = ''spoiled'', r_quantity = 20, r_unit = ''g'',
               r_location = [], r_supplier = [], r_catalog_number = [],
               r_date_added = ''2024-01-03'', r_expiry_date = None, r_notes = []\<rparr>)],
         seq = 2\<rparr>\<rparr>"
  by (simp add: two_users_def after_def task_defs reagent_defs lab_defs strftime_ymd_def
      year_text_def digit_def)

lemma created_two_users: "created_by 2 two_users init_db = [(Tasks, 2), (Reagents, 1)]"
  by (simp add: two_users_def created_by_def after_def task_defs reagent_defs lab_defs
      strftime_ymd_def year_text_def digit_def save_protocol_def save_buffer_def)

theorem reads_confined_to_owner_witness:
  "(1::int) \<noteq> 2
   \<and> created_by 2 two_users init_db = [(Tasks, 2), (Reagents, 1)]
   \<and> get_tasks (Some (run two_users init_db)) 1 None False
       = [(3, ''Order tips'', [], ''2024-01-03'', ''once'', 0),
          (1, ''Calibrate balance'', [], ''2024-01-08'', ''weekly'', 0)]
   \<and> map fst (get_reagents (Some (run two_users init_db)) 1) = [2]
   \<and> (\<exists>r \<in> set (rows (tasks (run two_users init_db))).
         (3, ''Order tips'', [], ''2024-01-03'', ''once'', 0) = task_tuple r
         \<and> t_user_id (snd r) = 1
         \<and> (Tasks, fst r) \<notin> set (created_by 2 two_users init_db))"
proof -
  have ne: "(1::int) \<noteq> 2" by simp
  have t: "get_tasks (Some (run two_users init_db)) 1 None False
       = [(3, ''Order tips'', [], ''2024-01-03'', ''once'', 0),
          (1, ''Calibrate balance'', [], ''2024-01-08'', ''weekly'', 0)]"
    unfolding run_two_users by (simp add: task_defs lab_defs)
  have r: "map fst (get_reagents (Some (run two_users init_db)) 1) = [2]"
    unfolding run_two_users by (simp add: reagent_defs lab_defs)
  have m: "(3, ''Order tips'', [], ''2024-01-03'', ''once'', 0)
      \<in> set (get_tasks (Some (run two_users init_db)) 1 None False)"
    by (simp add: t)
  note th = reads_confined_to_owner [OF ne refl, of two_users None False "[]" "[]"]
  from th [THEN conjunct1, THEN bspec, OF m] ne t r created_two_users
  show ?thesis by blast
qed

subsection \<open>Calendar arithmetic\<close>

text \<open>
  The year of an ordinal: with \<open>a\<close> full 400-year cycles, \<open>b\<close> centuries, \<open>c\<close>
  four-year cycles and \<open>d\<close> single years before it, the year is
  \<open>400 a + 100 b + 4 c + d + 1\<close>.
\<close>


lemma year_div:
  fixes a b c d :: int
  assumes "0 \<le> b" "b \<le> 3" "0 \<le> c" "c \<le> 24" "0 \<le> d" "d \<le> 3"
  shows "(a * 400 + b * 100 + c * 4 + d) div 4 = 100 * a + 25 * b + c"
    and "(a * 400 + b * 100 + c * 4 + d) div 100 = 4 * a + b"
    and "(a * 400 + b * 100 + c * 4 + d) div 400 = a"
proof -
  have 1: "a * 400 + b * 100 + c * 4 + d = 4 * (100 * a + 25 * b + c) + d" by simp
  show "(a * 400 + b * 100 + c * 4 + d) div 4 = 100 * a + 25 * b + c"
    unfolding 1 using assms by simp
  have 2: "a * 400 + b * 100 + c * 4 + d = 100 * (4 * a + b) + (4 * c + d)" by simp
  show "(a * 400 + b * 100 + c * 4 + d) div 100 = 4 * a + b"
    unfolding 2 using assms by simp
  have 3: "a * 400 + b * 100 + c * 4 + d = 400 * a + (100 * b + 4 * c + d)" by simp
  show "(a * 400 + b * 100 + c * 4 + d) div 400 = a"
    unfolding 3 using assms by simp
qed

lemma mod_zero_iff:
  fixes m k r :: int
  assumes "0 < r" "r \<le> m"
  shows "(m * k + r) mod m = 0 \<longleftrightarrow> r = m"
proof (cases "r = m")
  case True
  then show ?thesis by simp
next
  case False
  with assms have "r mod m = r" by simp
  with assms False show ?thesis by simp
qed

lemma year_leap:
  fixes a b c d :: int
  assumes "0 \<le> b" "b \<le> 3" "0 \<le> c" "c \<le> 24" "0 \<le> d" "d \<le> 3"
  shows "is_leap (a * 400 + 1 + b * 100 + c * 4 + d) \<longleftrightarrow> (d = 3 \<and> (c \<noteq> 24 \<or> b = 3))"
proof -
  let ?y = "a * 400 + 1 + b * 100 + c * 4 + d"
  have 1: "?y = 4 * (100 * a + 25 * b + c) + (d + 1)" by simp
  have "0 < d + 1" "d + 1 \<le> 4" using assms by simp_all
  from mod_zero_iff [OF this, of "100 * a + 25 * b + c"]
  have m4: "?y mod 4 = 0 \<longleftrightarrow> d = 3"
    unfolding 1 by auto
  have 2: "?y = 100 * (4 * a + b) + (4 * c + d + 1)" by simp
  have e2: "4 * c + d + 1 = 100 \<longleftrightarrow> (d = 3 \<and> c = 24)"
  proof
    assume "4 * c + d + 1 = 100"
    with assms show "d = 3 \<and> c = 24" by linarith
  qed simp
  have "0 < 4 * c + d + 1" "4 * c + d + 1 \<le> 100" using assms by simp_all
  from mod_zero_iff [OF this, of "4 * a + b"] e2
  have m100: "?y mod 100 = 0 \<longleftrightarrow> (d = 3 \<and> c = 24)"
    unfolding 2 by simp
  have 3: "?y = 400 * a + (100 * b + 4 * c + d + 1)" by simp
  have e3: "100 * b + 4 * c + d + 1 = 400 \<longleftrightarrow> (d = 3 \<and> c = 24 \<and> b = 3)"
  proof
    assume "100 * b + 4 * c + d + 1 = 400"
    with assms show "d = 3 \<and> c = 24 \<and> b = 3" by linarith
  qed simp
  have "0 < 100 * b + 4 * c + d + 1" "100 * b + 4 * c + d + 1 \<le> 400" using assms by simp_all
  from mod_zero_iff [OF this, of a] e3
  have m400: "?y mod 400 = 0 \<longleftrightarrow> (d = 3 \<and> c = 24 \<and> b = 3)"
    unfolding 3 by simp
  show ?thesis unfolding is_leap_def m4 m100 m400 by blast
qed

lemma year_days:
  fixes a b c d :: int
  assumes "0 \<le> b" "b \<le> 3" "0 \<le> c" "c \<le> 24" "0 \<le> d" "d \<le> 3"
  shows "days_before_year (a * 400 + 1 + b * 100 + c * 4 + d)
       = 146097 * a + 36524 * b + 1461 * c + 365 * d"
proof -
  have e: "a * 400 + 1 + b * 100 + c * 4 + d - 1 = a * 400 + b * 100 + c * 4 + d" by simp
  show ?thesis
    unfolding days_before_year_def e year_div [OF assms] by simp
qed


lemma month_day_table:
  "list_all (\<lambda>r1. list_all (\<lambda>leap.
      (case month_day leap r1 of (m, d) \<Rightarrow>
         1 \<le> m \<and> m \<le> 12 \<and> 1 \<le> d
         \<and> d \<le> (if m = 2 \<and> leap then 29 else DAYS_IN_MONTH ! nat m)
         \<and> DAYS_BEFORE_MONTH ! nat m + (if m > 2 \<and> leap then 1 else 0) + d = r1 + 1))
      [True, False]) [0..364]"
  by code_simp

lemma month_day_ok:
  assumes "0 \<le> r1" "r1 \<le> 364"
  shows "case month_day leap r1 of (m, d) \<Rightarrow>
         1 \<le> m \<and> m \<le> 12 \<and> 1 \<le> d
         \<and> d \<le> (if m = 2 \<and> leap then 29 else DAYS_IN_MONTH ! nat m)
         \<and> DAYS_BEFORE_MONTH ! nat m + (if m > 2 \<and> leap then 1 else 0) + d = r1 + 1"
proof -
  from assms have r: "r1 \<in> set [0..364]" by simp
  have l: "leap \<in> set [True, False]" by auto
  note tbl = month_day_table [unfolded list_all_iff]
  show ?thesis by (rule bspec [OF bspec [OF tbl r] l])
qed

lemma digits_of_ordinal:
  fixes n :: int
  assumes "1 \<le> n" "n \<le> MAXORDINAL"
    and a_def: "a = (n - 1) div 146097" and ra_def: "ra = (n - 1) mod 146097"
    and b_def: "b = ra div 36524" and rb_def: "rb = ra mod 36524"
    and c_def: "c = rb div 1461" and rc_def: "rc = rb mod 1461"
    and d_def: "d = rc div 365" and e_def: "e = rc mod 365"
  shows "n - 1 = 146097 * a + 36524 * b + 1461 * c + 365 * d + e"
    and "0 \<le> a" "a \<le> 24" "0 \<le> b" "b \<le> 4" "0 \<le> c" "c \<le> 24" "0 \<le> d" "d \<le> 4"
    and "0 \<le> e" "e \<le> 364"
    and "b = 4 \<Longrightarrow> c = 0 \<and> d = 0 \<and> e = 0"
    and "d = 4 \<Longrightarrow> e = 0 \<and> c \<le> 23"
    and "a * 400 + b * 100 + c * 4 + d \<le> 9999"
    and "b \<le> 3 \<Longrightarrow> d \<le> 3 \<Longrightarrow> a * 400 + b * 100 + c * 4 + d \<le> 9998"
proof -
  have n1: "n - 1 = 146097 * a + ra" and ra: "0 \<le> ra" "ra < 146097"
    by (simp_all add: a_def ra_def)
  have n2: "ra = 36524 * b + rb" and rb: "0 \<le> rb" "rb < 36524"
    by (simp_all add: b_def rb_def)
  have n3: "rb = 1461 * c + rc" and rc: "0 \<le> rc" "rc < 1461"
    by (simp_all add: c_def rc_def)
  have n4: "rc = 365 * d + e" and e: "0 \<le> e" "e < 365"
    by (simp_all add: d_def e_def)
  show "n - 1 = 146097 * a + 36524 * b + 1461 * c + 365 * d + e"
    using n1 n2 n3 n4 by simp
  show a0: "0 \<le> a" using assms(1) n1 ra by linarith
  show a24: "a \<le> 24" using assms(2) n1 ra unfolding MAXORDINAL_def by linarith
  show b0: "0 \<le> b" using ra n2 rb by linarith
  show b4: "b \<le> 4" using ra n2 rb by linarith
  show c0: "0 \<le> c" using rb n3 rc by linarith
  show c24: "c \<le> 24" using rb n3 rc by linarith
  show d0: "0 \<le> d" using rc n4 e by linarith
  show d4: "d \<le> 4" using rc n4 e by linarith
  show "0 \<le> e" "e \<le> 364" using e by simp_all
  show "c = 0 \<and> d = 0 \<and> e = 0" if "b = 4"
    using that ra n2 rb n3 rc n4 e c0 d0 by linarith
  show "e = 0 \<and> c \<le> 23" if "d = 4"
    using that rb n3 rc n4 e by linarith
  have le: "146097 * a + 36524 * b + 1461 * c + 365 * d + e \<le> 3652058"
    using assms(2) n1 n2 n3 n4 by (simp add: MAXORDINAL_def)
  show "a * 400 + b * 100 + c * 4 + d \<le> 9999"
    using le a0 a24 b0 b4 c0 c24 d0 d4 e by linarith
  show "a * 400 + b * 100 + c * 4 + d \<le> 9998" if "b \<le> 3" "d \<le> 3"
  proof (cases "a = 24")
    case True
    with le that b0 c0 c24 d0 e show ?thesis by linarith
  next
    case False
    with a24 have "a \<le> 23" by simp
    with that c24 show ?thesis by linarith
  qed
qed

text \<open>
  \<open>ord2ymd\<close> inverts \<open>ymd2ord\<close> on every supported ordinal and yields a date the
  \<^verbatim>\<open>date\<close> constructor accepts.
\<close>


lemma ord2ymd_correct:
  assumes "1 \<le> n" "n \<le> MAXORDINAL"
  shows "valid_date (ord2ymd n) \<and> ymd2ord (ord2ymd n) = n"
proof -
  define a where "a = (n - 1) div 146097"
  define ra where "ra = (n - 1) mod 146097"
  define b where "b = ra div 36524"
  define rb where "rb = ra mod 36524"
  define c where "c = rb div 1461"
  define rc where "rc = rb mod 1461"
  define d where "d = rc div 365"
  define e where "e = rc mod 365"
  note D = digits_of_ordinal [OF assms a_def ra_def b_def rb_def c_def rc_def d_def e_def]
  define lp where "lp \<longleftrightarrow> d = 3 \<and> (c \<noteq> 24 \<or> b = 3)"
  have o: "ord2ymd n =
      (if d = 4 \<or> b = 4
       then \<lparr>year = a * 400 + 1 + b * 100 + c * 4 + d - 1, month = 12, day = 31\<rparr>
       else \<lparr>year = a * 400 + 1 + b * 100 + c * 4 + d, month = fst (month_day lp e),
             day = snd (month_day lp e)\<rparr>)"
    unfolding ord2ymd_def Let_def lp_def e_def d_def rc_def c_def rb_def b_def ra_def a_def
    by simp
  have dec: "n = 146097 * a + 36524 * b + 1461 * c + 365 * d + e + 1"
    using D(1) by simp
  show ?thesis
  proof (cases "d = 4 \<or> b = 4")
    case True
    then consider "b = 4" | "d = 4" "b \<le> 3" using D(5) by linarith
    then show ?thesis
    proof cases
      case 1
      with D(12) have z: "c = 0" "d = 0" "e = 0" by simp_all
      have y: "a * 400 + 1 + b * 100 + c * 4 + d - 1 = a * 400 + 1 + 3 * 100 + 24 * 4 + 3"
        using 1 z by simp
      have dy: "days_before_year (a * 400 + 1 + 3 * 100 + 24 * 4 + 3)
          = 146097 * a + 36524 * 3 + 1461 * 24 + 365 * 3"
        by (rule year_days) simp_all
      have lp: "is_leap (a * 400 + 1 + 3 * 100 + 24 * 4 + 3)"
        using year_leap [of 3 24 3 a] by simp
      have yr: "1 \<le> a * 400 + 1 + 3 * 100 + 24 * 4 + 3" "a * 400 + 1 + 3 * 100 + 24 * 4 + 3 \<le> 9999"
        using D(2) D(14) 1 z by simp_all
      from True have "ord2ymd n = \<lparr>year = a * 400 + 1 + 3 * 100 + 24 * 4 + 3, month = 12, day = 31\<rparr>"
        unfolding o y by simp
      then show ?thesis
        using dy lp yr dec 1 z
        by (simp add: valid_date_def ymd2ord_def days_in_month_def days_before_month_def
            DAYS_IN_MONTH_def DAYS_BEFORE_MONTH_def)
    next
      case 2
      with D(13) have z: "e = 0" "c \<le> 23" by simp_all
      have y: "a * 400 + 1 + b * 100 + c * 4 + d - 1 = a * 400 + 1 + b * 100 + c * 4 + 3"
        using 2 by simp
      have dy: "days_before_year (a * 400 + 1 + b * 100 + c * 4 + 3)
          = 146097 * a + 36524 * b + 1461 * c + 365 * 3"
        using D(4) D(6) 2 z by (intro year_days) simp_all
      have lp: "is_leap (a * 400 + 1 + b * 100 + c * 4 + 3)"
        using year_leap [of b c 3 a] D(4) D(6) 2 z by simp
      have yr: "1 \<le> a * 400 + 1 + b * 100 + c * 4 + 3" "a * 400 + 1 + b * 100 + c * 4 + 3 \<le> 9999"
        using D(2) D(4) D(6) D(14) 2 by simp_all
      from True have "ord2ymd n = \<lparr>year = a * 400 + 1 + b * 100 + c * 4 + 3, month = 12, day = 31\<rparr>"
        unfolding o y by simp
      then show ?thesis
        using dy lp yr dec 2 z
        by (simp add: valid_date_def ymd2ord_def days_in_month_def days_before_month_def
            DAYS_IN_MONTH_def DAYS_BEFORE_MONTH_def)
    qed
  next
    case False
    with D(5) D(9) have b3: "b \<le> 3" and d3: "d \<le> 3" by simp_all
    let ?y = "a * 400 + 1 + b * 100 + c * 4 + d"
    have dy: "days_before_year ?y = 146097 * a + 36524 * b + 1461 * c + 365 * d"
      using D(4) b3 D(6) D(7) D(8) d3 by (intro year_days)
    have ly: "is_leap ?y \<longleftrightarrow> lp"
      unfolding lp_def using D(4) b3 D(6) D(7) D(8) d3 by (intro year_leap)
    have yr: "1 \<le> ?y" "?y \<le> 9999"
      using D(2) D(4) D(6) D(8) D(15) [OF b3 d3] by simp_all
    obtain m dd where md: "month_day lp e = (m, dd)" by (cases "month_day lp e")
    from month_day_ok [OF D(10) D(11), of lp] md
    have M: "1 \<le> m" "m \<le> 12" "1 \<le> dd"
      "dd \<le> (if m = 2 \<and> lp then 29 else DAYS_IN_MONTH ! nat m)"
      "DAYS_BEFORE_MONTH ! nat m + (if m > 2 \<and> lp then 1 else 0) + dd = e + 1"
      by simp_all
    from False have "ord2ymd n = \<lparr>year = ?y, month = m, day = dd\<rparr>"
      unfolding o md by simp
    then show ?thesis
      using dy ly yr M dec
      by (simp add: valid_date_def ymd2ord_def days_in_month_def days_before_month_def)
  qed
qed

text \<open>Formatting a date and parsing it back.\<close>


lemma digit_ok:
  assumes "0 \<le> k" "k \<le> 9"
  shows "is_digit (digit k)" "digit_val (digit k) = k"
proof -
  from assms have "k = 0 \<or> k = 1 \<or> k = 2 \<or> k = 3 \<or> k = 4 \<or> k = 5 \<or> k = 6 \<or> k = 7
      \<or> k = 8 \<or> k = 9" by arith
  then show "is_digit (digit k)" "digit_val (digit k) = k"
    by (auto simp: digit_def is_digit_def digit_val_def)
qed

lemma parse_month_formatted:
  assumes "1 \<le> m" "m \<le> 12"
  shows "parse_month (digit (m div 10) # digit (m mod 10) # s) = Some (m, s)"
proof -
  from assms have "m = 1 \<or> m = 2 \<or> m = 3 \<or> m = 4 \<or> m = 5 \<or> m = 6 \<or> m = 7
      \<or> m = 8 \<or> m = 9 \<or> m = 10 \<or> m = 11 \<or> m = 12" by arith
  then show ?thesis
    by (elim disjE) (simp_all add: digit_def is_digit_def digit_val_def)
qed

lemma parse_day_formatted:
  assumes "1 \<le> d" "d \<le> 31"
  shows "parse_day [digit (d div 10), digit (d mod 10)] = Some (d, [])"
proof -
  from assms have "d = 1 \<or> d = 2 \<or> d = 3 \<or> d = 4 \<or> d = 5 \<or> d = 6 \<or> d = 7
      \<or> d = 8 \<or> d = 9 \<or> d = 10 \<or> d = 11 \<or> d = 12 \<or> d = 13 \<or> d = 14 \<or> d = 15
      \<or> d = 16 \<or> d = 17 \<or> d = 18 \<or> d = 19 \<or> d = 20 \<or> d = 21 \<or> d = 22 \<or> d = 23
      \<or> d = 24 \<or> d = 25 \<or> d = 26 \<or> d = 27 \<or> d = 28 \<or> d = 29 \<or> d = 30 \<or> d = 31"
    by arith
  then show ?thesis
    by (elim disjE) (simp_all add: digit_def is_digit_def digit_val_def)
qed

lemma days_in_month_le_31:
  assumes "1 \<le> m" "m \<le> 12"
  shows "days_in_month y m \<le> 31"
proof -
  from assms have "m = 1 \<or> m = 2 \<or> m = 3 \<or> m = 4 \<or> m = 5 \<or> m = 6 \<or> m = 7
      \<or> m = 8 \<or> m = 9 \<or> m = 10 \<or> m = 11 \<or> m = 12" by arith
  then show ?thesis
    by (elim disjE) (simp_all add: days_in_month_def DAYS_IN_MONTH_def)
qed

lemma year_digits:
  fixes y :: int
  assumes "1 \<le> y" "y \<le> 9999"
  shows "0 \<le> y div 1000 \<and> y div 1000 \<le> 9
    \<and> 1000 * (y div 1000) + 100 * (y div 100 mod 10) + 10 * (y div 10 mod 10) + y mod 10 = y"
proof -
  have s: "x = 10 * (x div 10) + x mod 10" for x :: int by simp
  have "y div 100 = y div (10 * 10)" by simp
  also have "\<dots> = y div 10 div 10" by (rule zdiv_zmult2_eq) simp
  finally have h: "y div 100 = y div 10 div 10" .
  have "y div 1000 = y div (100 * 10)" by simp
  also have "\<dots> = y div 100 div 10" by (rule zdiv_zmult2_eq) simp
  finally have k: "y div 1000 = y div 100 div 10" .
  have m: "0 \<le> y mod 10" "0 \<le> y div 10 mod 10" "0 \<le> y div 100 mod 10" by simp_all
  from s [of y] s [of "y div 10"] s [of "y div 100"] h k
  have e: "1000 * (y div 1000) + 100 * (y div 100 mod 10) + 10 * (y div 10 mod 10) + y mod 10 = y"
    by linarith
  with m assms show ?thesis by linarith
qed


lemma strptime_valid: "strptime_ymd s = Inr d \<Longrightarrow> valid_date d"
  by (auto simp: strptime_ymd_def Let_def split: list.splits option.splits prod.splits if_splits)

lemma days_before_month_nonneg:
  assumes "1 \<le> m" "m \<le> 12"
  shows "0 \<le> days_before_month y m"
proof -
  from assms have "m = 1 \<or> m = 2 \<or> m = 3 \<or> m = 4 \<or> m = 5 \<or> m = 6 \<or> m = 7
      \<or> m = 8 \<or> m = 9 \<or> m = 10 \<or> m = 11 \<or> m = 12" by arith
  then show ?thesis
    by (elim disjE) (simp_all add: days_before_month_def DAYS_BEFORE_MONTH_def)
qed

lemma ymd2ord_pos:
  assumes "valid_date d"
  shows "1 \<le> ymd2ord d"
proof -
  from assms have y: "0 \<le> year d - 1" and m: "1 \<le> month d" "month d \<le> 12" and dd: "1 \<le> day d"
    by (simp_all add: valid_date_def)
  have "(year d - 1) div 100 \<le> (year d - 1) div 4"
    using y by (intro zdiv_mono2) simp_all
  moreover have "0 \<le> (year d - 1) div 400"
    using y by (simp add: pos_imp_zdiv_nonneg_iff)
  ultimately have "0 \<le> days_before_year (year d)"
    using y by (simp add: days_before_year_def)
  with days_before_month_nonneg [OF m, of "year d"] dd show ?thesis
    by (simp add: ymd2ord_def)
qed

lemma strptime_strftime:
  assumes "valid_date d" and "1000 \<le> year d"
  shows "strptime_ymd (strftime_ymd d) = Inr d"
proof -
  from assms have y: "1 \<le> year d" "year d \<le> 9999" and m: "1 \<le> month d" "month d \<le> 12"
    and dd: "1 \<le> day d" "day d \<le> days_in_month (year d) (month d)"
    by (simp_all add: valid_date_def)
  from dd days_in_month_le_31 [OF m, of "year d"] have d31: "day d \<le> 31" by linarith
  note Y = year_digits [OF y]
  have y1: "is_digit (digit (year d div 1000))" "digit_val (digit (year d div 1000)) = year d div 1000"
    using Y by (simp_all add: digit_ok)
  have y2: "is_digit (digit (year d div 100 mod 10))"
    "digit_val (digit (year d div 100 mod 10)) = year d div 100 mod 10"
    by (simp_all add: digit_ok)
  have y3: "is_digit (digit (year d div 10 mod 10))"
    "digit_val (digit (year d div 10 mod 10)) = year d div 10 mod 10"
    by (simp_all add: digit_ok)
  have y4: "is_digit (digit (year d mod 10))" "digit_val (digit (year d mod 10)) = year d mod 10"
    by (simp_all add: digit_ok)
  have r: "\<lparr>year = 1000 * (year d div 1000) + 100 * (year d div 100 mod 10)
        + 10 * (year d div 10 mod 10) + year d mod 10, month = month d, day = day d\<rparr> = d"
    using Y by simp
  have t: "year_text (year d) = [digit (year d div 1000), digit (year d div 100 mod 10),
      digit (year d div 10 mod 10), digit (year d mod 10)]"
    using assms(2) by (simp add: year_text_def)
  show ?thesis
    unfolding strptime_ymd_def strftime_ymd_def t
    by (simp add: y1 y2 y3 y4 parse_month_formatted [OF m] parse_day_formatted [OF dd(1) d31]
        r assms(1) del: parse_month.simps parse_day.simps)
qed

text \<open>
  Reading a stored date, adding \<open>k\<close> days and formatting the sum: when the sum is a
  supported day, the text written is the one of the date exactly \<open>k\<close> days later.
\<close>

lemma shift_date_ok:
  assumes p: "strptime_ymd s = Inr d" and k: "0 < k" and le: "ymd2ord d + k \<le> MAXORDINAL"
  shows "shift_date s k = Inr (strftime_ymd (ord2ymd (ymd2ord d + k)))"
    and "valid_date (ord2ymd (ymd2ord d + k))"
    and "ymd2ord (ord2ymd (ymd2ord d + k)) = ymd2ord d + k"
proof -
  from ymd2ord_pos [OF strptime_valid [OF p]] k have pos: "1 \<le> ymd2ord d + k" by simp
  from pos le show "shift_date s k = Inr (strftime_ymd (ord2ymd (ymd2ord d + k)))"
    by (simp add: shift_date_def p add_days_def)
  from ord2ymd_correct [OF pos le]
  show "valid_date (ord2ymd (ymd2ord d + k))"
    and "ymd2ord (ord2ymd (ymd2ord d + k)) = ymd2ord d + k"
    by simp_all
qed

subsection \<open>Reagent tracker\<close>

text \<open>
  The Update and Delete statements of the third tab select by id alone, where the
  statement of the inline edit also tests the owner. On the example store, where
  reagent 2 belongs to user 2: the two statements run with id 2, and an inline edit for
  id 2 submitted by user 1.
\<close>

lemma statements_select_by_id:
  "update_reagent (Some lab_db) 2 (spoiled 1)
     = ([ReagentUpdated], Some (lab_db\<lparr>reagents := \<lparr>rows =
         [(1, \<lparr>r_user_id = 1, r_name = ''NaCl'', r_quantity = 500, r_unit = ''g'',
               r_location = ''Shelf A'', r_supplier = [], r_catalog_number = [],
               r_date_added = ''2024-01-01'', r_expiry_date = None, r_notes = []\<rparr>),
          (2, \<lparr>r_user_id = 2, r_name = ''spoiled'', r_quantity = 1, r_unit = ''g'',
               r_location = [], r_supplier = [], r_catalog_number = [],
               r_date_added = ''2024-01-02'', r_expiry_date = None, r_notes = []\<rparr>)],
         seq = 2\<rparr>\<rparr>))
   \<and> delete_reagent (Some lab_db) 2
     = ([ReagentDeleted], Some (lab_db\<lparr>reagents := \<lparr>rows =
         [(1, \<lparr>r_user_id = 1, r_name = ''NaCl'', r_quantity = 500, r_unit = ''g'',
               r_location = ''Shelf A'', r_supplier = [], r_catalog_number = [],
               r_date_added = ''2024-01-01'', r_expiry_date = None, r_notes = []\<rparr>)],
         seq = 2\<rparr>\<rparr>))
   \<and> inline_edit (Some lab_db) 1 [(2, spoiled 1)] = ([InventoryUpdated], Some lab_db)"
  by (simp add: reagent_defs lab_defs)

text \<open>
  In the third tab the ownership test is the lookup that precedes the statements: the
  id is looked up in the caller's own list, so on a store with distinct rowids a click
  there leaves the rows of every other user as they were.
\<close>

lemma update_inventory_tab_other_rows:
  assumes d: "distinct (ids (reagents db))"
    and u: "update_inventory_tab (Some db) user_id reagent_id click = Inr (msgs, Some db')"
  shows "filter (\<lambda>r. r_user_id (snd r) \<noteq> user_id) (rows (reagents db'))
       = filter (\<lambda>r. r_user_id (snd r) \<noteq> user_id) (rows (reagents db))"
proof (cases "filter (\<lambda>r. fst r = reagent_id) (get_reagents (Some db) user_id)")
  case Nil
  with u show ?thesis
    by (auto simp: update_inventory_tab_def Let_def split: if_splits)
next
  case (Cons x xs)
  then have "x \<in> set (filter (\<lambda>r. fst r = reagent_id) (get_reagents (Some db) user_id))"
    by simp
  then have x: "x \<in> set (rows (reagents db))" "fst x = reagent_id" "r_user_id (snd x) = user_id"
    by (auto simp: get_reagents_def select_where_def)
  have own: "r_user_id (snd r) = user_id"
    if "r \<in> set (rows (reagents db))" "fst r = reagent_id" for r
  proof -
    from d have "inj_on fst (set (rows (reagents db)))"
      by (simp add: ids_def distinct_map)
    with that x have "r = x" by (auto dest: inj_onD)
    with x show ?thesis by simp
  qed
  have upd: "filter (\<lambda>r. r_user_id (snd r) \<noteq> user_id)
        (map (\<lambda>r. if fst r = reagent_id then (fst r, g (snd r)) else r) rs)
      = filter (\<lambda>r. r_user_id (snd r) \<noteq> user_id) rs"
    if "\<forall>r \<in> set rs. fst r = reagent_id \<longrightarrow> r_user_id (snd r) = user_id"
       "\<forall>c. r_user_id (g c) = r_user_id c"
    for g and rs :: "(int \<times> reagent_cols) list"
    using that by (induction rs) auto
  have del: "filter (\<lambda>r. fst r \<noteq> reagent_id \<and> r_user_id (snd r) \<noteq> user_id) rs
      = filter (\<lambda>r. r_user_id (snd r) \<noteq> user_id) rs"
    if "\<forall>r \<in> set rs. fst r = reagent_id \<longrightarrow> r_user_id (snd r) = user_id"
    for rs :: "(int \<times> reagent_cols) list"
    using that by (induction rs) auto
  from u Cons show ?thesis
    by (cases click)
       (auto simp: update_inventory_tab_def Let_def update_reagent_def delete_reagent_def
          number_input_def update_where_def delete_where_def set_reagent_fields_def
          upd own del split: if_splits)
qed


text \<open>
  A Delete click for an id among the caller's reagents goes through, as far as the tab
  is modelled here (the unit stored for the reagent being one of the listed units).
\<close>

lemma delete_click_goes_through:
  assumes "rid \<in> fst ` set (get_reagents (Some db) uid)"
    and "list_all (\<lambda>r. r_unit (snd r) \<in> set units) (get_reagents (Some db) uid)"
  shows "update_inventory_tab (Some db) uid rid DeleteClick
            = Inr ([ReagentDeleted],
                   Some (db\<lparr>reagents := delete_where (\<lambda>r. fst r = rid) (reagents db)\<rparr>))"
proof -
  from assms(1) obtain x xs
    where f: "filter (\<lambda>r. fst r = rid) (get_reagents (Some db) uid) = x # xs"
    by (cases "filter (\<lambda>r. fst r = rid) (get_reagents (Some db) uid)")
       (auto simp: filter_empty_conv)
  then have "x \<in> set (filter (\<lambda>r. fst r = rid) (get_reagents (Some db) uid))" by simp
  with assms(2) have u: "r_unit (snd x) \<in> set units" by (auto simp: list_all_iff)
  from assms(1) have ne: "get_reagents (Some db) uid \<noteq> []" by auto
  show ?thesis
    using f u ne unfolding update_inventory_tab_def Let_def
    by (simp add: delete_reagent_def)
qed



text \<open>
  Nor does the id come back later: rowids are never reused, so after deleting an id that
  the table has held, no sequence of later creations makes \<^verbatim>\<open>get_reagents\<close> return it.
\<close>

lemma deleted_id_not_reused:
  assumes ok: "table_ok (reagents db)" and le: "rid \<le> seq (reagents db)"
    and del: "delete_reagent (Some db) rid = (msgs, Some db')"
  shows "rid \<notin> fst ` set (get_reagents (Some (run acts db')) uid)"
proof
  assume "rid \<in> fst ` set (get_reagents (Some (run acts db')) uid)"
  then obtain r where r: "r \<in> set (rows (reagents (run acts db')))" and i: "fst r = rid"
    by (auto simp: get_reagents_def select_where_def)
  from del have db': "reagents db' = delete_where (\<lambda>r. fst r = rid) (reagents db)"
    by (auto simp: delete_reagent_def)
  from ok have ok': "table_ok (reagents db')"
    by (auto simp: db' table_ok_def delete_where_def ids_def list_all_iff)
  have s: "seq (reagents db') = seq (reagents db)"
    by (simp add: db' delete_where_def)
  from created_in_owner [OF step_reagents ok' r]
  show False
  proof
    assume "r \<in> set (rows (reagents db'))"
    with i show False by (simp add: db' delete_where_def)
  next
    assume "fst r \<in> set (created_in reagents (r_user_id (snd r)) acts db')"
    with created_in_fresh [OF step_reagents ok', of acts] have "seq (reagents db') < fst r"
      by blast
    with i s le show False by simp
  qed
qed

text \<open>
  C8, at the failing input. User 1 selects the own reagent 1 in the third tab and
  submits the Update form with quantity -1: the quantity widget of that form has no
  lower bound and the row is stored with quantity -1. The same form data is not
  accepted by the Add form, nor by the inline editor, whose quantity widgets have
  \<^verbatim>\<open>min_value\<close> 0.
\<close>

theorem form_update_accepts_negative_quantity:
  "update_inventory_tab (Some lab_db) 1 1 (UpdateClick (spoiled (-1)))
     = Inr ([ReagentUpdated], Some (lab_db\<lparr>reagents := \<lparr>rows =
         [(1, \<lparr>r_user_id = 1, r_name = ''spoiled'', r_quantity = -1, r_unit = ''g'',
               r_location = [], r_supplier = [], r_catalog_number = [],
               r_date_added = ''2024-01-01'', r_expiry_date = None, r_notes = []\<rparr>),
          (2, \<lparr>r_user_id = 2, r_name = ''Tris'', r_quantity = 5, r_unit = ''g'',
               r_location = ''Shelf B'', r_supplier = [], r_catalog_number = [],
               r_date_added = ''2024-01-02'', r_expiry_date = None, r_notes = []\<rparr>)],
         seq = 2\<rparr>\<rparr>))
   \<and> add_reagent (Some lab_db) 1 ''2024-01-03'' (spoiled (-1)) = ([], Some lab_db)
   \<and> inline_edit (Some lab_db) 1 [(1, spoiled (-1))] = ([], Some lab_db)"
  by (simp add: reagent_defs lab_defs add_reagent_def)

subsection \<open>Lab planner\<close>

lemma shift_example: "shift_date ''2024-01-01'' 7 = Inr ''2024-01-08''"
  by (simp add: date_defs Let_def)

lemma parse_example: "strptime_ymd ''2024-01-01'' = Inr \<lparr>year = 2024, month = 1, day = 1\<rparr>"
  by (simp add: date_defs)

text \<open>
  C6, at the failing input. User 1 adds a monthly task with the form of the first tab.
  The first tab lists it, since \<^verbatim>\<open>get_tasks()\<close> does not filter by frequency, and its
  tick button runs \<^verbatim>\<open>UPDATE tasks SET completed = 1\<close>: the monthly task ends up
  completed, with its due date where it was.
\<close>

theorem recurring_task_marked_completed:
  "add_task (Some init_db) 1 ''Clean centrifuge'' [] \<lparr>year = 2024, month = 1, day = 1\<rparr> ''monthly''
     = ([TaskAdded], Some monthly_db)
   \<and> daily_tasks_tab (Some monthly_db) 1 1
     = Inr ([], Some (monthly_db\<lparr>tasks := \<lparr>rows =
         [(1, \<lparr>t_user_id = 1, t_title = ''Clean centrifuge'', t_description = [],
               t_due_date = ''2024-01-01'', t_frequency = ''monthly'', t_completed = 1\<rparr>)],
         seq = 1\<rparr>\<rparr>))"
  by (simp add: task_defs monthly_db_def lab_defs parse_example strftime_ymd_def year_text_def digit_def)


text \<open>
  The second tab never gets to run its tick: every task it lists is also listed by the
  first tab, so the key of its first button is already taken. A run of the second tab
  that does not raise has listed nothing and leaves the store alone.
\<close>

lemma recurring_listed_in_first_tab:
  "set (get_tasks conn uid (Some f) False) \<subseteq> set (get_tasks conn uid None False)"
  by (cases conn) (auto simp: get_tasks_def get_tasks_rows_def select_where_def)

lemma recurring_tasks_tab_never_ticks:
  assumes "recurring_tasks_tab conn uid f clicked = Inr (msgs, conn')"
  shows "get_tasks conn uid (Some f) False = [] \<and> msgs = [NoTasksFound] \<and> conn' = conn"
proof (cases "get_tasks conn uid (Some f) False")
  case Nil
  with assms show ?thesis by (simp add: recurring_tasks_tab_def)
next
  case (Cons t ts)
  obtain task_id title desc due_date freq completed
    where t: "t = (task_id, title, desc, due_date, freq, completed)" by (cases t)
  from Cons recurring_listed_in_first_tab [of conn uid f]
  have "t \<in> set (get_tasks conn uid None False)" by auto
  then have "task_id \<in> set (map fst (get_tasks conn uid None False))"
    unfolding t by force
  then have "recurring_tasks_loop conn (map fst (get_tasks conn uid None False)) (t # ts) clicked
      \<noteq> Inr (msgs, conn')"
    unfolding t by (simp split: sum.splits)
  with assms Cons show ?thesis by (simp add: recurring_tasks_tab_def)
qed

text \<open>
  So no run of the planner changes a due date: what a run changes, if anything, is the
  \<^verbatim>\<open>completed\<close> column, through the tick of the first tab.
\<close>

lemma daily_tasks_loop_result:
  "daily_tasks_loop (Some db) ts clicked = Inr (msgs, conn')
     \<Longrightarrow> (msgs, conn') = ([], Some db)
         \<or> (clicked \<in> fst ` set ts \<and> (msgs, conn') = complete_task (Some db) clicked)"
  by (induction ts) (auto split: sum.splits if_splits)

lemma lab_planner_result:
  assumes "lab_planner (Some db) uid f clicked = Inr (msgs, conn')"
  shows "conn' = Some db
       \<or> (clicked \<in> fst ` set (get_tasks (Some db) uid None False)
           \<and> conn' = snd (complete_task (Some db) clicked))"
proof -
  from assms obtain m1 c1 where d: "daily_tasks_tab (Some db) uid clicked = Inr (m1, c1)"
    by (auto simp: lab_planner_def split: sum.splits)
  have c1: "c1 = Some db
       \<or> (clicked \<in> fst ` set (get_tasks (Some db) uid None False)
           \<and> c1 = snd (complete_task (Some db) clicked))"
  proof (cases "get_tasks (Some db) uid None False = []")
    case True
    with d show ?thesis by (simp add: daily_tasks_tab_def)
  next
    case False
    with d have "daily_tasks_loop (Some db) (get_tasks (Some db) uid None False) clicked
        = Inr (m1, c1)"
      by (simp add: daily_tasks_tab_def Let_def)
    from daily_tasks_loop_result [OF this] show ?thesis by (metis snd_conv)
  qed
  show ?thesis
  proof (cases "clicked \<in> set (map fst (get_tasks (Some db) uid None False))")
    case True
    with assms d have "conn' = c1" by (simp add: lab_planner_def)
    with c1 show ?thesis by simp
  next
    case False
    with assms d obtain m2 where r: "recurring_tasks_tab (Some db) uid f clicked = Inr (m2, conn')"
      by (auto simp: lab_planner_def split: sum.splits)
    from recurring_tasks_tab_never_ticks [OF r] show ?thesis by simp
  qed
qed

lemma lab_planner_keeps_due_dates:
  assumes "lab_planner (Some db) uid f clicked = Inr (msgs, Some db')"
  shows "map (\<lambda>r. (fst r, t_due_date (snd r))) (rows (tasks db'))
       = map (\<lambda>r. (fst r, t_due_date (snd r))) (rows (tasks db))"
  using lab_planner_result [OF assms]
  by (auto simp: complete_task_def update_where_def)

text \<open>
  C5, at the failing input. User 2 of the example store owns the monthly task 3, due
  2024-01-15, and acknowledges it. The only tick button the page draws for the task is
  the one of the first tab, whatever the radio button of the second tab says: the task
  ends up completed with its due date where it was, and not open with the due date
  2024-02-14 that lies thirty days later. Run on its own with the radio button at
  monthly, the second tab raises on the key that the first tab has taken.
\<close>

theorem monthly_task_completed_not_advanced:
  "lab_planner (Some lab_db) 2 ''weekly'' 3
     = Inr ([], Some (lab_db\<lparr>tasks := \<lparr>rows =
        [(1, \<lparr>t_user_id = 1, t_title = ''Calibrate balance'', t_description = [],
               t_due_date = ''2024-01-01'', t_frequency = ''weekly'', t_completed = 0\<rparr>),
         (2, \<lparr>t_user_id = 1, t_title = ''Order tips'', t_description = [],
               t_due_date = ''2024-01-01'', t_frequency = ''once'', t_completed = 0\<rparr>),
         (3, \<lparr>t_user_id = 2, t_title = ''Autoclave'', t_description = [],
               t_due_date = ''2024-01-15'', t_frequency = ''monthly'', t_completed = 1\<rparr>)],
        seq = 3\<rparr>\<rparr>))
   \<and> lab_planner (Some lab_db) 2 ''monthly'' 3 = lab_planner (Some lab_db) 2 ''weekly'' 3
   \<and> recurring_tasks_tab (Some lab_db) 2 ''monthly'' 3 = Inl DuplicateElementKey
   \<and> shift_date ''2024-01-15'' 30 = Inr ''2024-02-14''"
proof -
  have p: "strptime_ymd ''2024-01-15'' = Inr \<lparr>year = 2024, month = 1, day = 15\<rparr>"
    by (simp add: date_defs)
  have s: "shift_date ''2024-01-15'' 30 = Inr ''2024-02-14''"
    by (simp add: date_defs Let_def)
  have w: "lab_planner (Some lab_db) 2 ''weekly'' 3
     = Inr ([], Some (lab_db\<lparr>tasks := \<lparr>rows =
        [(1, \<lparr>t_user_id = 1, t_title = ''Calibrate balance'', t_description = [],
               t_due_date = ''2024-01-01'', t_frequency = ''weekly'', t_completed = 0\<rparr>),
         (2, \<lparr>t_user_id = 1, t_title = ''Order tips'', t_description = [],
               t_due_date = ''2024-01-01'', t_frequency = ''once'', t_completed = 0\<rparr>),
         (3, \<lparr>t_user_id = 2, t_title = ''Autoclave'', t_description = [],
               t_due_date = ''2024-01-15'', t_frequency = ''monthly'', t_completed = 1\<rparr>)],
        seq = 3\<rparr>\<rparr>))"
    by (simp add: task_defs lab_defs p)
  have m: "lab_planner (Some lab_db) 2 ''monthly'' 3 = lab_planner (Some lab_db) 2 ''weekly'' 3"
    by (simp add: task_defs lab_defs p)
  have r: "recurring_tasks_tab (Some lab_db) 2 ''monthly'' 3 = Inl DuplicateElementKey"
    by (simp add: task_defs lab_defs p)
  from w m r s show ?thesis by (intro conjI)
qed

text \<open>
  What the body of the second tab's tick would store if it ran: for a task row whose
  due date parses to \<open>d\<close>, the text of the date exactly 7 days after \<open>d\<close> for a weekly
  task and exactly 30 days after \<open>d\<close> otherwise, as long as that day is supported, and
  nothing else in the row.
\<close>

lemma map_of_update_where:
  "map_of (rows (update_where (\<lambda>r. fst r = tid) f t)) i
     = (if i = tid then map_option f (map_of (rows t) i) else map_of (rows t) i)"
proof -
  have "map_of (map (\<lambda>r. if fst r = tid then (fst r, f (snd r)) else r) rs) i
     = (if i = tid then map_option f (map_of rs i) else map_of rs i)" for rs :: "(int \<times> 'a) list"
    by (induction rs) auto
  then show ?thesis by (simp add: update_where_def)
qed

lemma advance_task_effect:
  assumes row: "map_of (rows (tasks db)) tid = Some c"
    and due: "strptime_ymd (t_due_date c) = Inr d"
    and k: "k = (if t_frequency c = ''weekly'' then 7 else 30)"
    and le: "ymd2ord d + k \<le> MAXORDINAL"
  shows "\<exists>d' db'. advance_task (Some db) (task_tuple (tid, c)) = Inr ([], Some db')
           \<and> map_of (rows (tasks db')) tid = Some (c\<lparr>t_due_date := strftime_ymd d'\<rparr>)
           \<and> valid_date d' \<and> ymd2ord d' = ymd2ord d + k"
proof -
  from k have pos: "0 < k" by (simp split: if_splits)
  note S = shift_date_ok [OF due pos le]
  let ?d' = "ord2ymd (ymd2ord d + k)"
  let ?db' = "db\<lparr>tasks := update_where (\<lambda>r. fst r = tid)
                 (\<lambda>c. c\<lparr>t_due_date := strftime_ymd ?d'\<rparr>) (tasks db)\<rparr>"
  have "advance_task (Some db) (task_tuple (tid, c)) = Inr ([], Some ?db')"
  proof (cases "t_frequency c = ''weekly''")
    case True
    with k have "k = 7" by simp
    with S(1) True show ?thesis by (simp add: advance_task_def task_tuple_def)
  next
    case False
    with k have "k = 30" by simp
    with S(1) False show ?thesis by (simp add: advance_task_def task_tuple_def)
  qed
  moreover have "map_of (rows (tasks ?db')) tid = Some (c\<lparr>t_due_date := strftime_ymd ?d'\<rparr>)"
    using row by (simp add: map_of_update_where)
  ultimately show ?thesis using S(2,3) by blast
qed


subsection \<open>Sessions\<close>

text \<open>
  No statement of the program changes the \<^verbatim>\<open>user_id\<close> of a row, and every
  \<^verbatim>\<open>UPDATE\<close> and \<^verbatim>\<open>DELETE\<close> a page runs reaches rows of the caller only: the
  inline edit tests the owner in its \<^verbatim>\<open>WHERE\<close> clause, and the statements that select
  by id alone are handed an id found in the caller's own list, which holds one row at
  most for an id.
\<close>

lemma fold_max_lower: "s \<le> fold max xs (s::int)"
proof (induction xs arbitrary: s)
  case Nil
  show ?case by simp
next
  case (Cons a xs)
  have "s \<le> max a s" by simp
  also have "\<dots> \<le> fold max xs (max a s)" by (rule Cons.IH)
  finally show ?case by simp
qed

lemma fold_max_upper: "x \<in> set xs \<Longrightarrow> x \<le> fold max xs (s::int)"
proof (induction xs arbitrary: s)
  case Nil
  then show ?case by simp
next
  case (Cons a xs)
  show ?case
  proof (cases "x = a")
    case True
    have "a \<le> max a s" by simp
    also have "\<dots> \<le> fold max xs (max a s)" by (rule fold_max_lower)
    finally show ?thesis using True by simp
  next
    case False
    with Cons.prems have "x \<in> set xs" by simp
    from Cons.IH [OF this] show ?thesis by simp
  qed
qed

lemma insert_row_distinct:
  assumes "distinct (ids t)"
  shows "distinct (ids (insert_row c t))"
proof -
  have "next_rowid t \<notin> set (ids t)"
  proof
    assume "next_rowid t \<in> set (ids t)"
    from fold_max_upper [OF this, of "seq t"] show False by (simp add: next_rowid_def)
  qed
  with assms show ?thesis by (simp add: insert_row_def ids_def)
qed

lemma insert_row_foreign:
  assumes "owner c = u"
  shows "filter (\<lambda>r. owner (snd r) \<noteq> u) (rows (insert_row c t))
       = filter (\<lambda>r. owner (snd r) \<noteq> u) (rows t)"
  using assms by (simp add: insert_row_def)

lemma step_buffers:
  "buffers (step a db) = buffers db
     \<or> (\<exists>c. b_user_id c = actor a \<and> buffers (step a db) = insert_row c (buffers db))"
  by (cases a) (force simp: after_def add_task_def add_reagent_def save_protocol_def
      save_buffer_def number_input_def)+

lemma step_users: "users (step a db) = users db"
  by (cases a) (auto simp: after_def add_task_def add_reagent_def save_protocol_def
      save_buffer_def number_input_def split: option.splits)

lemma step_store_ok:
  assumes "store_ok db"
  shows "store_ok (step a db)"
  using assms step_tasks [of a db] step_reagents [of a db]
  by (auto simp: store_ok_def insert_row_distinct)

lemma step_foreign_rows:
  assumes "actor a = u"
  shows "foreign_rows u (step a db) = foreign_rows u db"
proof -
  have t: "filter (\<lambda>r. t_user_id (snd r) \<noteq> u) (rows (tasks (step a db)))
      = filter (\<lambda>r. t_user_id (snd r) \<noteq> u) (rows (tasks db))"
    using step_tasks [of a db] assms by (auto simp: insert_row_foreign)
  have r: "filter (\<lambda>r. r_user_id (snd r) \<noteq> u) (rows (reagents (step a db)))
      = filter (\<lambda>r. r_user_id (snd r) \<noteq> u) (rows (reagents db))"
    using step_reagents [of a db] assms by (auto simp: insert_row_foreign)
  have e: "filter (\<lambda>r. e_user_id (snd r) \<noteq> u) (rows (experiments (step a db)))
      = filter (\<lambda>r. e_user_id (snd r) \<noteq> u) (rows (experiments db))"
    using step_experiments [of a db] assms by (auto simp: insert_row_foreign)
  have b: "filter (\<lambda>r. b_user_id (snd r) \<noteq> u) (rows (buffers (step a db)))
      = filter (\<lambda>r. b_user_id (snd r) \<noteq> u) (rows (buffers db))"
    using step_buffers [of a db] assms by (auto simp: insert_row_foreign)
  show ?thesis by (simp add: foreign_rows_def t r e b step_users)
qed

text \<open>An UPDATE that reaches only rows of \<open>u\<close> and keeps the owner column.\<close>

lemma update_where_foreign:
  assumes "\<forall>r \<in> set (rows t). p r \<longrightarrow> owner (snd r) = u"
    and "\<forall>c. owner (f c) = owner c"
  shows "filter (\<lambda>r. owner (snd r) \<noteq> u) (rows (update_where p f t))
       = filter (\<lambda>r. owner (snd r) \<noteq> u) (rows t)"
proof -
  have "filter (\<lambda>r. owner (snd r) \<noteq> u) (map (\<lambda>r. if p r then (fst r, f (snd r)) else r) rs)
      = filter (\<lambda>r. owner (snd r) \<noteq> u) rs"
    if "\<forall>r \<in> set rs. p r \<longrightarrow> owner (snd r) = u" for rs
    using that assms(2) by (induction rs) auto
  from this [OF assms(1)] show ?thesis by (simp add: update_where_def)
qed

lemma update_where_ids: "ids (update_where p f t) = ids t"
  by (simp add: update_where_def ids_def comp_def if_distrib cong: if_cong)

lemma delete_where_distinct: "distinct (ids t) \<Longrightarrow> distinct (ids (delete_where p t))"
  by (simp add: delete_where_def ids_def distinct_map_filter)

lemma owner_of_id:
  assumes "distinct (ids t)" and "x \<in> set (rows t)" and "r \<in> set (rows t)" and "fst r = fst x"
  shows "r = x"
proof -
  from assms(1) have "inj_on fst (set (rows t))" by (simp add: ids_def distinct_map)
  with assms(2-4) show ?thesis by (auto dest: inj_onD)
qed

lemma delete_where_foreign:
  assumes "\<forall>r \<in> set (rows t). p r \<longrightarrow> owner (snd r) = u"
  shows "filter (\<lambda>r. owner (snd r) \<noteq> u) (rows (delete_where p t))
       = filter (\<lambda>r. owner (snd r) \<noteq> u) (rows t)"
proof -
  have "filter (\<lambda>r. owner (snd r) \<noteq> u) (filter (\<lambda>r. \<not> p r) rs)
      = filter (\<lambda>r. owner (snd r) \<noteq> u) rs"
    if "\<forall>r \<in> set rs. p r \<longrightarrow> owner (snd r) = u" for rs
    using that by (induction rs) auto
  from this [OF assms] show ?thesis by (simp add: delete_where_def)
qed

lemma reagents_changed:
  assumes "store_ok db" and "distinct (ids t')"
    and "filter (\<lambda>r. r_user_id (snd r) \<noteq> u) (rows t')
       = filter (\<lambda>r. r_user_id (snd r) \<noteq> u) (rows (reagents db))"
  shows "store_ok (db\<lparr>reagents := t'\<rparr>)
       \<and> foreign_rows u (db\<lparr>reagents := t'\<rparr>) = foreign_rows u db"
  using assms by (simp add: store_ok_def foreign_rows_def)

lemma tasks_changed:
  assumes "store_ok db" and "distinct (ids t')"
    and "filter (\<lambda>r. t_user_id (snd r) \<noteq> u) (rows t')
       = filter (\<lambda>r. t_user_id (snd r) \<noteq> u) (rows (tasks db))"
  shows "store_ok (db\<lparr>tasks := t'\<rparr>)
       \<and> foreign_rows u (db\<lparr>tasks := t'\<rparr>) = foreign_rows u db"
  using assms by (simp add: store_ok_def foreign_rows_def)

text \<open>The inline edit: each of its statements tests the owner.\<close>

lemma inline_edit_fold:
  "ids (fold (\<lambda>e. update_where (\<lambda>r. fst r = fst e \<and> r_user_id (snd r) = u)
                    (set_reagent_fields (snd e) (f_quantity (snd e)))) es t) = ids t
   \<and> filter (\<lambda>r. r_user_id (snd r) \<noteq> u)
        (rows (fold (\<lambda>e. update_where (\<lambda>r. fst r = fst e \<and> r_user_id (snd r) = u)
                    (set_reagent_fields (snd e) (f_quantity (snd e)))) es t))
     = filter (\<lambda>r. r_user_id (snd r) \<noteq> u) (rows t)"
proof (induction es arbitrary: t)
  case Nil
  show ?case by simp
next
  case (Cons e es)
  let ?t = "update_where (\<lambda>r. fst r = fst e \<and> r_user_id (snd r) = u)
              (set_reagent_fields (snd e) (f_quantity (snd e))) t"
  have "filter (\<lambda>r. r_user_id (snd r) \<noteq> u) (rows ?t)
      = filter (\<lambda>r. r_user_id (snd r) \<noteq> u) (rows t)"
    by (rule update_where_foreign) (simp_all add: set_reagent_fields_def)
  with Cons.IH [of ?t] show ?case by (simp add: update_where_ids)
qed

lemma inline_edit_ok:
  assumes "store_ok db"
  shows "store_ok (perform u (EditInline es) db)
       \<and> foreign_rows u (perform u (EditInline es) db) = foreign_rows u db"
proof (cases "list_ex (\<lambda>e. number_input (Some 0) (f_quantity (snd e)) = None) es")
  case True
  then have "perform u (EditInline es) db = db"
    by (simp add: inline_edit_def after_def)
  with assms show ?thesis by simp
next
  case False
  let ?t = "fold (\<lambda>e. update_where (\<lambda>r. fst r = fst e \<and> r_user_id (snd r) = u)
                    (set_reagent_fields (snd e) (f_quantity (snd e)))) es (reagents db)"
  from False have p: "perform u (EditInline es) db = db\<lparr>reagents := ?t\<rparr>"
    by (simp add: inline_edit_def after_def)
  from inline_edit_fold [of u es "reagents db"] assms
  have "distinct (ids ?t)"
    and "filter (\<lambda>r. r_user_id (snd r) \<noteq> u) (rows ?t)
       = filter (\<lambda>r. r_user_id (snd r) \<noteq> u) (rows (reagents db))"
    by (simp_all add: store_ok_def)
  from reagents_changed [OF assms this] show ?thesis unfolding p .
qed

text \<open>The third tab of the tracker: the lookup in the caller's list comes first.\<close>

lemma update_inventory_tab_result:
  assumes "update_inventory_tab (Some db) u rid click = Inr (msgs, conn')"
  shows "conn' = Some db
       \<or> ((\<exists>x \<in> set (rows (reagents db)). fst x = rid \<and> r_user_id (snd x) = u)
          \<and> (conn' = Some (db\<lparr>reagents := delete_where (\<lambda>r. fst r = rid) (reagents db)\<rparr>)
             \<or> (\<exists>f q. conn' = Some (db\<lparr>reagents := update_where (\<lambda>r. fst r = rid)
                                    (set_reagent_fields f q) (reagents db)\<rparr>))))"
proof (cases "filter (\<lambda>r. fst r = rid) (get_reagents (Some db) u)")
  case Nil
  with assms show ?thesis
    by (auto simp: update_inventory_tab_def Let_def split: if_splits)
next
  case (Cons x xs)
  then have "x \<in> set (filter (\<lambda>r. fst r = rid) (get_reagents (Some db) u))" by simp
  then have x: "\<exists>x \<in> set (rows (reagents db)). fst x = rid \<and> r_user_id (snd x) = u"
    by (auto simp: get_reagents_def select_where_def)
  from assms Cons have "conn' = Some db
      \<or> conn' = Some (db\<lparr>reagents := delete_where (\<lambda>r. fst r = rid) (reagents db)\<rparr>)
      \<or> (\<exists>f q. conn' = Some (db\<lparr>reagents := update_where (\<lambda>r. fst r = rid)
                                    (set_reagent_fields f q) (reagents db)\<rparr>))"
    by (cases click)
       (auto simp: update_inventory_tab_def Let_def update_reagent_def delete_reagent_def
          number_input_def split: if_splits)
  with x show ?thesis by blast
qed

lemma inventory_ok:
  assumes "store_ok db"
  shows "store_ok (perform u (Inventory rid click) db)
       \<and> foreign_rows u (perform u (Inventory rid click) db) = foreign_rows u db"
proof (cases "update_inventory_tab (Some db) u rid click")
  case (Inl e)
  then have "perform u (Inventory rid click) db = db" by (simp add: settled_def)
  with assms show ?thesis by simp
next
  case (Inr res)
  obtain msgs conn' where res: "res = (msgs, conn')" by (cases res)
  from Inr res have p: "perform u (Inventory rid click) db = after db (msgs, conn')"
    by (simp add: settled_def)
  from Inr res have "update_inventory_tab (Some db) u rid click = Inr (msgs, conn')" by simp
  from update_inventory_tab_result [OF this]
  consider "conn' = Some db"
    | x where "x \<in> set (rows (reagents db))" "fst x = rid" "r_user_id (snd x) = u"
        "conn' = Some (db\<lparr>reagents := delete_where (\<lambda>r. fst r = rid) (reagents db)\<rparr>)"
    | x f q where "x \<in> set (rows (reagents db))" "fst x = rid" "r_user_id (snd x) = u"
        "conn' = Some (db\<lparr>reagents := update_where (\<lambda>r. fst r = rid)
                                    (set_reagent_fields f q) (reagents db)\<rparr>)"
    by blast
  then show ?thesis
  proof cases
    case 1
    with p assms show ?thesis by (simp add: after_def)
  next
    case 2
    from assms have d: "distinct (ids (reagents db))" by (simp add: store_ok_def)
    have own: "\<forall>r \<in> set (rows (reagents db)). fst r = rid \<longrightarrow> r_user_id (snd r) = u"
      using owner_of_id [OF d 2(1)] 2(2,3) by auto
    from reagents_changed [OF assms delete_where_distinct [OF d]
        delete_where_foreign [OF own]] 2(4) p
    show ?thesis by (simp add: after_def)
  next
    case 3
    from assms have d: "distinct (ids (reagents db))" by (simp add: store_ok_def)
    have own: "\<forall>r \<in> set (rows (reagents db)). fst r = rid \<longrightarrow> r_user_id (snd r) = u"
      using owner_of_id [OF d 3(1)] 3(2,3) by auto
    have keep: "\<forall>c. r_user_id (set_reagent_fields f q c) = r_user_id c"
      by (simp add: set_reagent_fields_def)
    have d': "distinct (ids (update_where (\<lambda>r. fst r = rid) (set_reagent_fields f q)
        (reagents db)))"
      using d by (simp add: update_where_ids)
    from reagents_changed [OF assms d' update_where_foreign [OF own keep]] 3(4) p
    show ?thesis by (simp add: after_def)
  qed
qed

text \<open>The planner: a tick button exists only for a task of the caller's list.\<close>

lemma tick_ok:
  assumes "store_ok db"
  shows "store_ok (perform u (Tick f clicked) db)
       \<and> foreign_rows u (perform u (Tick f clicked) db) = foreign_rows u db"
proof (cases "lab_planner (Some db) u f clicked")
  case (Inl e)
  then have "perform u (Tick f clicked) db = db" by (simp add: settled_def)
  with assms show ?thesis by simp
next
  case (Inr res)
  obtain msgs conn' where res: "res = (msgs, conn')" by (cases res)
  from Inr res have p: "perform u (Tick f clicked) db = after db (msgs, conn')"
    by (simp add: settled_def)
  from Inr res have "lab_planner (Some db) u f clicked = Inr (msgs, conn')" by simp
  from lab_planner_result [OF this]
  consider "conn' = Some db"
    | "clicked \<in> fst ` set (get_tasks (Some db) u None False)"
      "conn' = snd (complete_task (Some db) clicked)"
    by blast
  then show ?thesis
  proof cases
    case 1
    with p assms show ?thesis by (simp add: after_def)
  next
    case 2
    from 2(1) obtain x where x: "x \<in> set (rows (tasks db))" "fst x = clicked"
        "t_user_id (snd x) = u"
      by (auto simp: get_tasks_def get_tasks_rows_def select_where_def task_tuple_def)
    from assms have d: "distinct (ids (tasks db))" by (simp add: store_ok_def)
    have own: "\<forall>r \<in> set (rows (tasks db)). fst r = clicked \<longrightarrow> t_user_id (snd r) = u"
      using owner_of_id [OF d x(1)] x(2,3) by auto
    have keep: "\<forall>c. t_user_id (c\<lparr>t_completed := 1\<rparr>) = t_user_id c" by simp
    have d': "distinct (ids (update_where (\<lambda>r. fst r = clicked) (\<lambda>c. c\<lparr>t_completed := 1\<rparr>)
        (tasks db)))"
      using d by (simp add: update_where_ids)
    from tasks_changed [OF assms d' update_where_foreign [OF own keep]] 2(2) p
    show ?thesis by (simp add: after_def complete_task_def)
  qed
qed

lemma perform_ok:
  assumes "store_ok db"
  shows "store_ok (perform u c db) \<and> foreign_rows u (perform u c db) = foreign_rows u db"
proof (cases c)
  case (EditInline es)
  with inline_edit_ok [OF assms] show ?thesis by simp
next
  case (Inventory rid click)
  with inventory_ok [OF assms] show ?thesis by simp
next
  case (Tick f clicked)
  with tick_ok [OF assms] show ?thesis by simp
next
  case (NewTask title description due frequency)
  then have "perform u c db = step (AddTask u title description due frequency) db"
    by (simp del: step.simps)
  then show ?thesis
    using step_store_ok [OF assms, of "AddTask u title description due frequency"]
      step_foreign_rows [of "AddTask u title description due frequency" u db]
    by (simp del: step.simps)
next
  case (NewReagent today f)
  then have "perform u c db = step (AddReagent u today f) db" by (simp del: step.simps)
  then show ?thesis
    using step_store_ok [OF assms, of "AddReagent u today f"]
      step_foreign_rows [of "AddReagent u today f" u db]
    by (simp del: step.simps)
next
  case (NewProtocol e)
  then have "perform u c db = step (SaveProtocol u e) db" by (simp del: step.simps)
  then show ?thesis
    using step_store_ok [OF assms, of "SaveProtocol u e"]
      step_foreign_rows [of "SaveProtocol u e" u db]
    by (simp del: step.simps)
next
  case (NewBuffer b)
  then have "perform u c db = step (SaveBuffer u b) db" by (simp del: step.simps)
  then show ?thesis
    using step_store_ok [OF assms, of "SaveBuffer u b"]
      step_foreign_rows [of "SaveBuffer u b" u db]
    by (simp del: step.simps)
qed

lemma store_ok_init: "store_ok init_db"
  by (simp add: store_ok_def init_db_def empty_table_def ids_def)


text \<open>A session of user 1 on the example store that tries the ids of user 2.\<close>

lemma prying_session:
  "session 1 prying lab_db
     = lab_db\<lparr>reagents := delete_where (\<lambda>r. fst r = 1) (reagents lab_db)\<rparr>"
proof -
  have p: "strptime_ymd ''2024-01-01'' = Inr \<lparr>year = 2024, month = 1, day = 1\<rparr>"
    by (simp add: date_defs)
  have a: "perform 1 (Inventory 2 (UpdateClick (spoiled 1))) lab_db = lab_db"
    by (simp add: settled_def after_def reagent_defs lab_defs)
  have b: "perform 1 (Inventory 2 DeleteClick) lab_db = lab_db"
    by (simp add: settled_def after_def reagent_defs lab_defs)
  have c: "perform 1 (EditInline [(2, spoiled 1)]) lab_db = lab_db"
    by (simp add: after_def reagent_defs lab_defs)
  have d: "perform 1 (Tick ''monthly'' 3) lab_db = lab_db"
    by (simp add: settled_def after_def task_defs lab_defs p)
  have e: "perform 1 (Tick ''weekly'' 3) lab_db = lab_db"
    by (simp add: settled_def after_def task_defs lab_defs p)
  have f: "perform 1 (Inventory 1 DeleteClick) lab_db
     = lab_db\<lparr>reagents := delete_where (\<lambda>r. fst r = 1) (reagents lab_db)\<rparr>"
    by (simp add: settled_def after_def reagent_defs lab_defs)
  show ?thesis by (simp add: prying_def a b c d e f del: perform.simps)
qed


text \<open>
  C1. Whatever a logged-in user submits on the pages that write to the store, in any
  number and order and with whatever ids, the rows of the other users stay as they
  were: every row of the users table and every task, reagent, protocol and buffer whose
  \<^verbatim>\<open>user_id\<close> is not the caller's is still there, unchanged and in the same place,
  and the ids of a table stay distinct, so that the same holds of the next session. The
  ownership test of the update and delete of the third reagent tab and of the tick
  is the lookup of the id in the list fetched for the caller.
\<close>

theorem session_leaves_foreign_rows:
  assumes "store_ok db"
  shows "foreign_rows u (session u cs db) = foreign_rows u db \<and> store_ok (session u cs db)"
  using assms
proof (induction cs arbitrary: db)
  case Nil
  then show ?case by simp
next
  case (Cons c cs)
  from perform_ok [OF Cons.prems, of u c]
  have ok: "store_ok (perform u c db)"
    and same: "foreign_rows u (perform u c db) = foreign_rows u db"
    by simp_all
  from Cons.IH [OF ok] same show ?case by simp
qed

theorem session_leaves_foreign_rows_witness:
  "store_ok lab_db
   \<and> session 1 prying lab_db
       = lab_db\<lparr>reagents := delete_where (\<lambda>r. fst r = 1) (reagents lab_db)\<rparr>
   \<and> foreign_rows 1 (session 1 prying lab_db) = foreign_rows 1 lab_db
   \<and> store_ok (session 1 prying lab_db)
   \<and> foreign_rows 1 lab_db
       = (rows (users lab_db), [(3, \<lparr>t_user_id = 2, t_title = ''Autoclave'', t_description = [],
               t_due_date = ''2024-01-15'', t_frequency = ''monthly'', t_completed = 0\<rparr>)],
          filter (\<lambda>r. fst r = 2) (rows (reagents lab_db)), [], [])"
proof -
  have ok: "store_ok lab_db" by (simp add: store_ok_def lab_defs ids_def)
  note t = session_leaves_foreign_rows [OF ok, of 1 prying]
  have fr: "foreign_rows 1 lab_db
       = (rows (users lab_db), [(3, \<lparr>t_user_id = 2, t_title = ''Autoclave'', t_description = [],
               t_due_date = ''2024-01-15'', t_frequency = ''monthly'', t_completed = 0\<rparr>)],
          filter (\<lambda>r. fst r = 2) (rows (reagents lab_db)), [], [])"
    by (simp add: foreign_rows_def lab_defs)
  from ok prying_session t fr show ?thesis by (intro conjI) simp_all
qed
subsection \<open>Dilution calculator\<close>

text \<open>
  C9. For a stock concentration other than zero the calculator computes
  \<open>c2 * v2 / c1\<close>, shows it and records it in the history; in particular 2, 0.5 and 100
  give 25. For a stock concentration of zero it shows the error "Stock concentration
  cannot be zero!", computes no value and leaves the history as it was.
\<close>

theorem dilution_formula:
  "(c1 \<noteq> 0 \<longrightarrow> dilution c1 c2 v2 = Inr (c2 * v2 / c1)
       \<and> dilution_calculator c1 c2 v2 h
           = ([DilutionNeeded (c2 * v2 / c1)], h @ [(c1, c2, v2, c2 * v2 / c1)]))
   \<and> dilution 2 0.5 100 = Inr 25
   \<and> dilution 0 c2 v2 = Inl ()
   \<and> dilution_calculator 0 c2 v2 h = ([StockConcentrationZero], h)"
  by (simp add: dilution_def dilution_calculator_def)

theorem dilution_formula_witness:
  "(2::real) \<noteq> 0 \<and> dilution 2 0.5 100 = Inr (0.5 * 100 / 2)
   \<and> dilution_calculator 2 0.5 100 [] = ([DilutionNeeded 25], [(2, 0.5, 100, 25)])
   \<and> dilution_calculator 0 1 10 [] = ([StockConcentrationZero], [])"
  using dilution_formula [of 2 "0.5" 100 "[]"] dilution_formula [of 0 1 10 "[]"] by simp


end
